theory Spec2Isabelle
  imports Complex_Main "HOL-Library.Word"
begin

unbundle bit_operations_syntax

section \<open>The seeded sequence generator (app.js, lines 5-14)\<close>

text \<open>
  \<^verbatim>\<open>mulberry32(seed)\<close> returns a closure over the variable \<open>seed\<close>. Every call of the
  closure adds \<open>0x6D2B79F5\<close> to the captured variable, mixes the sum with
  \<open>Math.imul\<close>, \<open>^\<close>, \<open>|\<close> and \<open>>>>\<close>, and returns the unsigned 32-bit result divided by
  \<open>4294967296\<close>. All the bit operations of JavaScript work on the operand reduced modulo
  \<open>2^32\<close>, so the captured variable is modelled by a 32-bit word: the closure call is a
  function from the captured word to the returned number and the new captured word.
  The quotient of a 32-bit integer by \<open>2^32\<close> is exact in a double; it is the only
  number the generator produces. (The source never truncates the captured number, which
  grows by \<open>0x6D2B79F5\<close> at each call; its reduction modulo \<open>2^32\<close> is the word of the
  model as long as that number is below \<open>2^53\<close>, that is for several million calls.)

  JavaScript numbers are modelled by exact reals throughout: \<open>+\<close>, \<open>-\<close>, \<open>*\<close>, \<open>/\<close>
  and \<open>Math.pow\<close> are the real operations, without the rounding of doubles.
\<close>

type_synonym u32 = "32 word"

definition mulberry32 :: "u32 \<Rightarrow> real \<times> u32" where
  "mulberry32 seed =
     (let seed' = seed + 0x6D2B79F5;
          t = seed';
          t = (t XOR drop_bit 15 t) * (t OR 1);
          t = t XOR (t + (t XOR drop_bit 7 t) * (t OR 61))
      in (real (unat (t XOR drop_bit 14 t)) / 4294967296, seed'))"

text \<open>\<^verbatim>\<open>randRange = (rng, a, b) => a + (b - a) * rng()\<close>\<close>

definition randRange :: "real \<Rightarrow> real \<Rightarrow> u32 \<Rightarrow> real \<times> u32" where
  "randRange a b s = (let (u, s') = mulberry32 s in (a + (b - a) * u, s'))"

text \<open>\<^verbatim>\<open>randInt = (rng, a, b) => Math.floor(randRange(rng, a, b + 1))\<close>\<close>

definition randInt :: "real \<Rightarrow> real \<Rightarrow> u32 \<Rightarrow> int \<times> u32" where
  "randInt a b s = (let (v, s') = randRange a (b + 1) s in (\<lfloor>v\<rfloor>, s'))"

text \<open>\<^verbatim>\<open>Math.round\<close> rounds to the nearest integer, a half towards plus infinity.\<close>

definition js_round :: "real \<Rightarrow> int" where
  "js_round x = \<lfloor>x + 1 / 2\<rfloor>"

section \<open>Configuration and static layout (createCity, lines 233-281)\<close>

record config =
  blocksX :: nat
  blocksZ :: nat
  blockSize :: real
  roadWidth :: real
  lotPadding :: real
  buildingCountEstimate :: int
  densityFactor :: real
  laneOffset :: real
  parkChance :: real

text \<open>The object literal of lines 233-243; \<open>buildingDensity\<close> is the global of line 227.\<close>

definition makeConfig :: "real \<Rightarrow> config" where
  "makeConfig buildingDensity =
     \<lparr> blocksX = 12, blocksZ = 12, blockSize = 70, roadWidth = 36, lotPadding = 4,
       buildingCountEstimate = js_round (12 * buildingDensity),
       densityFactor = buildingDensity, laneOffset = 6, parkChance = 0.14 \<rparr>"

definition citySizeX :: "config \<Rightarrow> real" where
  "citySizeX cfg = real (blocksX cfg) * blockSize cfg"

definition citySizeZ :: "config \<Rightarrow> real" where
  "citySizeZ cfg = real (blocksZ cfg) * blockSize cfg"

text \<open>
  A road is a plane mesh lying flat on the ground: \<open>plane_w\<close> is its extent along X,
  \<open>plane_h\<close> its extent along Z, and (\<open>plane_x\<close>, \<open>plane_z\<close>) its centre. The horizontal
  roads share the geometry \<open>roadGeoH\<close>, the vertical ones \<open>roadGeoV\<close> (lines 252-264).
  Sidewalks and park surfaces are plane meshes as well.
\<close>

record plane =
  plane_w :: real
  plane_h :: real
  plane_x :: real
  plane_y :: real
  plane_z :: real

definition roadsH :: "config \<Rightarrow> plane list" where
  "roadsH cfg =
     map (\<lambda>zi. \<lparr> plane_w = citySizeX cfg + blockSize cfg, plane_h = roadWidth cfg,
                 plane_x = 0, plane_y = 0,
                 plane_z = real zi * blockSize cfg - citySizeZ cfg / 2 \<rparr>)
         [0 ..< Suc (blocksZ cfg)]"

definition roadsV :: "config \<Rightarrow> plane list" where
  "roadsV cfg =
     map (\<lambda>xi. \<lparr> plane_w = roadWidth cfg, plane_h = citySizeZ cfg + blockSize cfg,
                 plane_x = real xi * blockSize cfg - citySizeX cfg / 2, plane_y = 0,
                 plane_z = 0 \<rparr>)
         [0 ..< Suc (blocksX cfg)]"

definition makeRoads :: "config \<Rightarrow> plane list" where
  "makeRoads cfg = roadsH cfg @ roadsV cfg"

text \<open>The block loops run \<open>bx\<close> outermost and \<open>bz\<close> innermost (lines 269-270, 306-307).\<close>

definition blockOrder :: "config \<Rightarrow> (nat \<times> nat) list" where
  "blockOrder cfg =
     concat (map (\<lambda>bx. map (\<lambda>bz. (bx, bz)) [0 ..< blocksZ cfg]) [0 ..< blocksX cfg])"

definition makeSidewalks :: "config \<Rightarrow> plane list" where
  "makeSidewalks cfg =
     map (\<lambda>(bx, bz).
            \<lparr> plane_w = blockSize cfg - 2, plane_h = blockSize cfg - 2,
              plane_x = real bx * blockSize cfg - citySizeX cfg / 2 + blockSize cfg / 2,
              plane_y = 0.02,
              plane_z = real bz * blockSize cfg - citySizeZ cfg / 2 + blockSize cfg / 2 \<rparr>)
         (blockOrder cfg)"

section \<open>Parks and buildings (createCity, lines 293-356)\<close>

text \<open>The lot rectangle of a block (lines 308-311).\<close>

record lot =
  blockMinX :: real
  blockMaxX :: real
  blockMinZ :: real
  blockMaxZ :: real

definition blockLot :: "config \<Rightarrow> nat \<Rightarrow> nat \<Rightarrow> lot" where
  "blockLot cfg bx bz =
     \<lparr> blockMinX = real bx * blockSize cfg - citySizeX cfg / 2 + roadWidth cfg / 2
                     + lotPadding cfg,
       blockMaxX = (real bx + 1) * blockSize cfg - citySizeX cfg / 2 - roadWidth cfg / 2
                     - lotPadding cfg,
       blockMinZ = real bz * blockSize cfg - citySizeZ cfg / 2 + roadWidth cfg / 2
                     + lotPadding cfg,
       blockMaxZ = (real bz + 1) * blockSize cfg - citySizeZ cfg / 2 - roadWidth cfg / 2
                     - lotPadding cfg \<rparr>"

text \<open>
  What \<open>temp.updateMatrix()\<close> composes into an instance matrix: the position, the scale
  and the rotation about the Y axis of the scratch \<open>Object3D\<close>.
\<close>

record transform =
  position_x :: real
  position_y :: real
  position_z :: real
  scale_x :: real
  scale_y :: real
  scale_z :: real
  rotation_y :: real

text \<open>One tree: the trunk mesh and the leaves mesh, by their positions (lines 326-333).\<close>

record tree =
  trunk :: "real \<times> real \<times> real"
  leaves :: "real \<times> real \<times> real"

text \<open>
  The mutable state of the block loop: the captured generator word, the running count
  \<open>idx\<close>, the instance matrices written so far (\<open>buildings.setMatrixAt(idx++, ...)\<close>
  writes them at consecutive indices from 0), the park meshes added to \<open>group\<close> and the
  children of \<open>treesGroup\<close>.
\<close>

record gen =
  g_rng :: u32
  g_idx :: nat
  g_buildings :: "transform list"
  g_parks :: "plane list"
  g_trees :: "tree list"

text \<open>The body of the lot loop after its capacity guard (lines 342-352): seven draws.\<close>

definition placeBuilding :: "lot \<Rightarrow> u32 \<Rightarrow> transform \<times> u32" where
  "placeBuilding l s0 =
     (let (x, s1) = randRange (blockMinX l) (blockMaxX l) s0;
          (z, s2) = randRange (blockMinZ l) (blockMaxZ l) s1;
          (footprint, s3) = randRange 8 16 s2;
          (depth, s4) = randRange 8 16 s3;
          (u1, s5) = randRange 0.2 1.0 s4;
          (u2, s6) = randRange 20 150 s5;
          h = u1 powr 1.8 * u2;
          (yaw, s7) = randRange (- 0.07) 0.07 s6
      in (\<lparr> position_x = x, position_y = h / 2, position_z = z,
             scale_x = footprint, scale_y = h, scale_z = depth, rotation_y = yaw \<rparr>, s7))"

text \<open>
  \<^verbatim>\<open>for (let i = 0; i < lots; i++) { if (idx >= totalEst) break; ... }\<close>, by recursion on
  the number of iterations left.
\<close>

fun lotLoop :: "int \<Rightarrow> lot \<Rightarrow> nat \<Rightarrow> gen \<Rightarrow> gen" where
  "lotLoop totalEst l 0 g = g"
| "lotLoop totalEst l (Suc n) g =
     (if int (g_idx g) \<ge> totalEst then g
      else (let (b, s) = placeBuilding l (g_rng g)
            in lotLoop totalEst l n
                 (g\<lparr> g_rng := s, g_idx := Suc (g_idx g),
                     g_buildings := g_buildings g @ [b] \<rparr>)))"

text \<open>The tree loop of a park block (lines 325-334): two draws for each tree.\<close>

fun treeLoop :: "lot \<Rightarrow> nat \<Rightarrow> gen \<Rightarrow> gen" where
  "treeLoop l 0 g = g"
| "treeLoop l (Suc n) g =
     (let (tx, s1) = randRange (blockMinX l + 2) (blockMaxX l - 2) (g_rng g);
          (tz, s2) = randRange (blockMinZ l + 2) (blockMaxZ l - 2) s1
      in treeLoop l n
           (g\<lparr> g_rng := s2,
               g_trees := g_trees g @ [\<lparr> trunk = (tx, 1.1, tz), leaves = (tx, 2.4, tz) \<rparr>] \<rparr>))"

text \<open>The lot count of a building block (lines 338-339).\<close>

definition lotCount :: "config \<Rightarrow> int \<Rightarrow> int" where
  "lotCount cfg lots = max 2 (js_round (real_of_int lots * densityFactor cfg))"

text \<open>The body of the block loops (lines 308-353).\<close>

definition blockStep :: "config \<Rightarrow> int \<Rightarrow> nat \<times> nat \<Rightarrow> gen \<Rightarrow> gen" where
  "blockStep cfg totalEst p g =
     (let l = blockLot cfg (fst p) (snd p);
          (u, s1) = mulberry32 (g_rng g);
          isPark = (u < parkChance cfg)
      in if isPark then
           (let park = \<lparr> plane_w = (blockMaxX l - blockMinX l) * 0.92,
                         plane_h = (blockMaxZ l - blockMinZ l) * 0.92,
                         plane_x = (blockMinX l + blockMaxX l) / 2, plane_y = 0.03,
                         plane_z = (blockMinZ l + blockMaxZ l) / 2 \<rparr>;
                (treeCount, s2) = randInt 6 14 s1
            in treeLoop l (nat treeCount)
                 (g\<lparr> g_rng := s2, g_parks := g_parks g @ [park] \<rparr>))
         else
           (let (lots, s2) = randInt 8 18 s1
            in lotLoop totalEst l (nat (lotCount cfg lots)) (g\<lparr> g_rng := s2 \<rparr>)))"

definition blockLoop :: "config \<Rightarrow> int \<Rightarrow> gen \<Rightarrow> gen" where
  "blockLoop cfg totalEst g = fold (blockStep cfg totalEst) (blockOrder cfg) g"

section \<open>Lanes and cars (createCity, lines 361-399)\<close>

text \<open>
  A lane object is \<^verbatim>\<open>{ axis: 'x', z, dir }\<close> or \<^verbatim>\<open>{ axis: 'z', x, dir }\<close>: the axis tag
  decides which coordinate field the object carries.
\<close>

datatype lane = LaneX (lane_z: real) (lane_dir: int) | LaneZ (lane_x: real) (lane_dir: int)

definition makeLanes :: "config \<Rightarrow> lane list" where
  "makeLanes cfg =
     concat (map (\<lambda>zi. (let z = real zi * blockSize cfg - citySizeZ cfg / 2
                         in [LaneX (z - laneOffset cfg) 1, LaneX (z + laneOffset cfg) (- 1)]))
                 [0 ..< Suc (blocksZ cfg)])
     @ concat (map (\<lambda>xi. (let x = real xi * blockSize cfg - citySizeX cfg / 2
                           in [LaneZ (x - laneOffset cfg) 1, LaneZ (x + laneOffset cfg) (- 1)]))
                   [0 ..< Suc (blocksX cfg)])"

text \<open>
  A car object \<^verbatim>\<open>{ lane, color, speed, t, length }\<close>. The colour is kept as the arguments
  of \<open>setHSL\<close>: the drawn hue, saturation 0.6 and lightness 0.5.
\<close>

record car =
  car_lane :: lane
  car_color :: "real \<times> real \<times> real"
  car_speed :: real
  car_t :: real
  car_length :: real

text \<open>
  Errors a call can end with. \<open>RangeError\<close>: an instance buffer of negative length
  (\<open>InstancedMesh\<close> allocates a \<open>Float32Array\<close> of 16 numbers for each instance).
  \<open>TypeError\<close>: a property read on \<open>undefined\<close>, which is what an array index out of
  range gives.
\<close>

datatype error = RangeError | TypeError

text \<open>
  The car loop (lines 391-399), by recursion on the number of cars left. The lane is
  looked up before the colour and the speed are drawn; its \<open>axis\<close> is read after them.
\<close>

fun carLoop :: "config \<Rightarrow> lane list \<Rightarrow> nat \<Rightarrow> u32 \<Rightarrow> car list \<Rightarrow> error + (car list \<times> u32)" where
  "carLoop cfg lanes 0 s cars = Inr (cars, s)"
| "carLoop cfg lanes (Suc n) s cars =
     (let (li, s1) = randInt 0 (real (length lanes) - 1) s;
          (hue, s2) = randRange 0 1 s1;
          (speed, s3) = randRange 12 26 s2
      in if li < 0 \<or> int (length lanes) \<le> li then Inl TypeError
         else (let ln = lanes ! nat li;
                   len = (case ln of LaneX z d \<Rightarrow> citySizeX cfg + blockSize cfg
                                   | LaneZ x d \<Rightarrow> citySizeZ cfg + blockSize cfg);
                   (t0, s4) = randRange 0 1 s3
               in carLoop cfg lanes n s4
                    (cars @ [\<lparr> car_lane = ln, car_color = (hue, 0.6, 0.5), car_speed = speed,
                               car_t = t0, car_length = len \<rparr>])))"

section \<open>Textures (lines 177-223)\<close>

text \<open>
  The two canvas textures draw their noise and their lit windows from \<open>Math.random()\<close>,
  not from the city's generator (\<open>makeFacadeTexture\<close> receives \<open>rng\<close> and never calls it),
  and the facade reads the global \<open>isNight\<close>. The ambient randomness is a sequence
  \<open>mathRandom\<close>: its \<open>k\<close>-th element is what the \<open>k\<close>-th call of \<open>Math.random()\<close> returns,
  counted from the entry of \<open>createCity\<close>. A texture is the list of the drawing
  operations on its canvas.
\<close>

record env =
  mathRandom :: "nat \<Rightarrow> real"
  isNight :: bool

text \<open>
  \<open>FillRect style x y w h\<close> is \<open>fillRect(x, y, w, h)\<close> under the fill style; \<open>StrokeDashed
  style lineWidth x0 y0 x1 y1\<close> is the dashed centre line of the road texture.
\<close>

datatype style = Hex string | Rgba real real real real

datatype canvas_op =
    FillRect style real real real real
  | StrokeDashed style real real real real real

definition makeRoadTexture :: "(nat \<Rightarrow> real) \<Rightarrow> nat \<Rightarrow> canvas_op list \<times> nat" where
  "makeRoadTexture rnd k =
     (FillRect (Hex ''#2b2f35'') 0 0 512 128
      # map (\<lambda>i. FillRect (Rgba 255 255 255 (rnd (k + 3 * i) * 0.02))
                   (rnd (k + 3 * i + 1) * 512) (rnd (k + 3 * i + 2) * 128) 1 1)
            [0 ..< 2500]
      @ [StrokeDashed (Hex ''#e6e6e6'') 6 0 64 512 64],
      k + 7500)"

definition makeFacadeTexture ::
  "(nat \<Rightarrow> real) \<Rightarrow> nat \<Rightarrow> bool \<Rightarrow> int \<Rightarrow> int \<Rightarrow> string \<Rightarrow> canvas_op list \<times> nat" where
  "makeFacadeTexture rnd k night cols rows base =
     (let w = 256; h = 256; padX = 10; padY = 10;
          cellW = (w - padX * 2) / real_of_int cols;
          cellH = (h - padY * 2) / real_of_int rows;
          k1 = k + 6000
      in (FillRect (Hex base) 0 0 w h
          # map (\<lambda>i. FillRect (Rgba 255 255 255 (0.02 + rnd (k + 3 * i) * 0.02))
                       (rnd (k + 3 * i + 1) * w) (rnd (k + 3 * i + 2) * h) 1 1)
                [0 ..< 2000]
          @ concat (map (\<lambda>r. concat (map (\<lambda>c2.
                (let x = padX + real c2 * cellW + 2;
                     y = padY + real r * cellH + 2;
                     ww = cellW - 4; hh = cellH - 4;
                     lit = (rnd (k1 + r * nat cols + c2) < 0.3);
                     shade = (if lit then (if night then 1.0 else 0.35)
                              else (if night then 0.1 else 0.12))
                 in [FillRect (Rgba 200 220 255 shade) x y ww hh,
                     FillRect (Rgba 0 0 0 0.06) x (y + hh * 0.65) ww (hh * 0.35)]))
              [0 ..< nat cols])) [0 ..< nat rows]),
          k1 + nat rows * nat cols))"

section \<open>The city aggregate (createCity, lines 229-412)\<close>

text \<open>
  Geometries, materials and textures are named by the variable that holds them in
  \<open>createCity\<close>; a sidewalk or a park has a geometry (and a park a material) of its own,
  numbered in creation order. A mesh refers to its geometry and its material.
\<close>

datatype geometry =
    RoadGeoH | RoadGeoV | SidewalkGeo nat | ParkGeo nat | BuildingGeo
  | TrunkGeo | LeafGeo | BodyGeo | RoofGeo | WheelGeo

datatype material =
    RoadMat | SidewalkMat | ParkMat nat | BuildingMat | TrunkMat | LeafMat
  | BodyMat | GlassMat | WheelMat

datatype texture = RoadTex | FacadeTex

record mesh =
  mesh_geometry :: geometry
  mesh_material :: material

text \<open>The \<open>map\<close> and the \<open>emissiveMap\<close> of a material (lines 249-251, 289-292, 268, 300-301, 367-369).\<close>

definition material_map :: "material \<Rightarrow> texture option" where
  "material_map m = (if m = RoadMat then Some RoadTex
                     else if m = BuildingMat then Some FacadeTex else None)"

definition material_emissiveMap :: "material \<Rightarrow> texture option" where
  "material_emissiveMap m = (if m = BuildingMat then Some FacadeTex else None)"

record city =
  group :: "mesh list"
  config :: config
  roads :: "plane list"
  sidewalks :: "plane list"
  parks :: "plane list"
  trees :: "tree list"
  capacity :: int
  buildings :: "transform list"
  count :: nat
  bodyMatrices :: "transform list"
  roofMatrices :: "transform list"
  wheelMatrices :: "transform list"
  cars :: "car list"
  lanes :: "lane list"
  materials :: "material list"
  roadTexture :: "canvas_op list"
  facadeTexture :: "canvas_op list"
  emissiveIntensity :: real
  seed :: u32

text \<open>
  The meshes below \<open>group\<close> in the order \<open>traverse\<close> visits them: the road group, the
  sidewalks, the parks, the instanced buildings, the tree group, the three car meshes
  (the \<open>group.add\<close> calls of lines 265, 279, 322, 357, 358, 376). The groups themselves
  have neither geometry nor material.
\<close>

definition groupMeshes :: "config \<Rightarrow> nat \<Rightarrow> nat \<Rightarrow> mesh list" where
  "groupMeshes cfg nparks ntrees =
     replicate (Suc (blocksZ cfg)) \<lparr> mesh_geometry = RoadGeoH, mesh_material = RoadMat \<rparr>
     @ replicate (Suc (blocksX cfg)) \<lparr> mesh_geometry = RoadGeoV, mesh_material = RoadMat \<rparr>
     @ map (\<lambda>i. \<lparr> mesh_geometry = SidewalkGeo i, mesh_material = SidewalkMat \<rparr>)
           [0 ..< blocksX cfg * blocksZ cfg]
     @ map (\<lambda>i. \<lparr> mesh_geometry = ParkGeo i, mesh_material = ParkMat i \<rparr>) [0 ..< nparks]
     @ [\<lparr> mesh_geometry = BuildingGeo, mesh_material = BuildingMat \<rparr>]
     @ concat (replicate ntrees
          [\<lparr> mesh_geometry = TrunkGeo, mesh_material = TrunkMat \<rparr>,
           \<lparr> mesh_geometry = LeafGeo, mesh_material = LeafMat \<rparr>])
     @ [\<lparr> mesh_geometry = BodyGeo, mesh_material = BodyMat \<rparr>,
        \<lparr> mesh_geometry = RoofGeo, mesh_material = GlassMat \<rparr>,
        \<lparr> mesh_geometry = WheelGeo, mesh_material = WheelMat \<rparr>]"

text \<open>
  \<open>createCity(seed)\<close> with the global \<open>buildingDensity\<close> as a parameter. The generator is
  created once (line 230); its first three draws are the \<open>cols\<close>, \<open>rows\<close> and \<open>base\<close>
  arguments of the facade texture (lines 286-287), then come the block loops and the
  car loop. The instance buffers of the car meshes are allocated here and first written
  by \<open>updateTraffic\<close>; the lists \<open>bodyMatrices\<close>, \<open>roofMatrices\<close> and \<open>wheelMatrices\<close> hold
  the matrices written so far.
\<close>

definition facadeBase :: "int \<Rightarrow> string" where
  "facadeBase i =
     (if 0 \<le> i \<and> i < 4 then [''#7c8ea5'', ''#8aa0b8'', ''#6f8197'', ''#7a8fab''] ! nat i
      else ''#7b8aa0'')"

definition createCity :: "u32 \<Rightarrow> real \<Rightarrow> env \<Rightarrow> error + city" where
  "createCity sd buildingDensity e =
     (let cfg = makeConfig buildingDensity;
          (roadTex, k1) = makeRoadTexture (mathRandom e) 0;
          (cols, s1) = randInt 6 10 sd;
          (rows, s2) = randInt 12 20 s1;
          (bi, s3) = randInt 0 3 s2;
          (facadeTex, k2) = makeFacadeTexture (mathRandom e) k1 (isNight e) cols rows
                              (facadeBase bi);
          totalEst = int (blocksX cfg) * int (blocksZ cfg) * buildingCountEstimate cfg
      in if totalEst < 0 then Inl RangeError
         else
           (let g = blockLoop cfg totalEst
                      \<lparr> g_rng = s3, g_idx = 0, g_buildings = [], g_parks = [], g_trees = [] \<rparr>;
                carCount = min 160 (nat \<lfloor>(real (blocksX cfg) + real (blocksZ cfg)) * 6\<rfloor>);
                lns = makeLanes cfg
            in case carLoop cfg lns carCount (g_rng g) [] of
                 Inl err \<Rightarrow> Inl err
               | Inr (cs, s4) \<Rightarrow>
                   Inr \<lparr> group = groupMeshes cfg (length (g_parks g)) (length (g_trees g)),
                         config = cfg,
                         roads = makeRoads cfg,
                         sidewalks = makeSidewalks cfg,
                         parks = g_parks g,
                         trees = g_trees g,
                         capacity = totalEst,
                         buildings = g_buildings g,
                         count = g_idx g,
                         bodyMatrices = [], roofMatrices = [], wheelMatrices = [],
                         cars = cs,
                         lanes = lns,
                         materials = [BuildingMat, RoadMat, SidewalkMat, BodyMat, GlassMat,
                                      WheelMat],
                         roadTexture = roadTex,
                         facadeTexture = facadeTex,
                         emissiveIntensity = (if isNight e then 0.7 else 0.12),
                         seed = sd \<rparr>))"

section \<open>Traffic (updateTraffic, lines 460-503)\<close>

text \<open>
  The remainder operator \<open>%\<close> of JavaScript truncates the quotient towards zero, so the
  result has the sign of the dividend.
\<close>

definition js_rem :: "real \<Rightarrow> real \<Rightarrow> real" where
  "js_rem a b = a - b * of_int (if 0 \<le> a / b then \<lfloor>a / b\<rfloor> else \<lceil>a / b\<rceil>)"

text \<open>Line 466: \<^verbatim>\<open>car.t = (car.t + (car.speed * dt) / car.length) % 1\<close>.\<close>

definition advance :: "real \<Rightarrow> car \<Rightarrow> car" where
  "advance dt c = c\<lparr> car_t := js_rem (car_t c + (car_speed c * dt) / car_length c) 1 \<rparr>"

text \<open>Lines 467-480: the position and the yaw of the scratch object \<open>tmp\<close> for a car.\<close>

definition carTransform :: "car \<Rightarrow> transform" where
  "carTransform c =
     (let pos = car_t c * car_length c - car_length c / 2
      in case car_lane c of
           LaneX z d \<Rightarrow>
             \<lparr> position_x = (if d > 0 then pos else - pos), position_y = 0.6, position_z = z,
               scale_x = 1, scale_y = 1, scale_z = 1,
               rotation_y = (if d > 0 then - pi / 2 else pi / 2) \<rparr>
         | LaneZ x d \<Rightarrow>
             \<lparr> position_x = x, position_y = 0.6, position_z = (if d > 0 then pos else - pos),
               scale_x = 1, scale_y = 1, scale_z = 1,
               rotation_y = (if d > 0 then 0 else pi) \<rparr>)"

text \<open>
  Lines 484-498: the four wheels sit at fixed offsets, turned about the Y axis by the
  yaw of the car.
\<close>

definition wheelOffsets :: "(real \<times> real \<times> real) list" where
  "wheelOffsets = [(- 0.8, - 0.25, 1.3), (0.8, - 0.25, 1.3), (- 0.8, - 0.25, - 1.3),
                   (0.8, - 0.25, - 1.3)]"

definition applyAxisAngleY :: "real \<Rightarrow> real \<times> real \<times> real \<Rightarrow> real \<times> real \<times> real" where
  "applyAxisAngleY a v =
     (case v of (x, y, z) \<Rightarrow> (x * cos a + z * sin a, y, z * cos a - x * sin a))"

definition wheelTransforms :: "transform \<Rightarrow> transform list" where
  "wheelTransforms tmp =
     map (\<lambda>off. (case applyAxisAngleY (rotation_y tmp) off of
                   (ox, oy, oz) \<Rightarrow>
                     \<lparr> position_x = position_x tmp + ox, position_y = position_y tmp + oy,
                       position_z = position_z tmp + oz,
                       scale_x = 1, scale_y = 1, scale_z = 1,
                       rotation_y = rotation_y tmp \<rparr>))
         wheelOffsets"

text \<open>
  \<open>updateTraffic(dt)\<close> on the global \<open>city\<close>: nothing without a city; otherwise every car
  advances and the body, roof and wheel matrices are rewritten from the new \<open>t\<close>.
\<close>

definition updateTraffic :: "real \<Rightarrow> city option \<Rightarrow> city option" where
  "updateTraffic dt cur =
     (case cur of
        None \<Rightarrow> None
      | Some c \<Rightarrow>
          (let cs = map (advance dt) (cars c);
               ms = map carTransform cs
           in Some (c\<lparr> cars := cs, bodyMatrices := ms, roofMatrices := ms,
                        wheelMatrices := concat (map wheelTransforms ms) \<rparr>)))"

section \<open>Disposal (disposeCity, lines 414-427)\<close>

text \<open>
  What \<open>disposeCity\<close> changes outside the city: the children of \<open>scene\<close> (of which the
  model keeps the groups of cities, each as the list of its meshes), and the geometries,
  materials and textures whose \<open>dispose()\<close> it calls. \<open>dispose_calls\<close> is the sequence of
  those calls, oldest first. Every property access in the source is guarded by \<open>?.\<close>, so
  the function has no error result.
\<close>

datatype resource = Geometry geometry | Material material | Texture texture

record stage =
  scene :: "mesh list list"
  dispose_calls :: "resource list"

text \<open>Lines 417-422: \<open>traverse\<close> disposes the geometry and the material of each mesh.\<close>

definition traverseDispose :: "mesh list \<Rightarrow> resource list" where
  "traverseDispose ms =
     concat (map (\<lambda>m. [Geometry (mesh_geometry m), Material (mesh_material m)]) ms)"

text \<open>Lines 423-426: the \<open>map\<close> and the \<open>emissiveMap\<close> of each entry of \<open>c.materials\<close>.\<close>

definition materialsDispose :: "material list \<Rightarrow> resource list" where
  "materialsDispose ms =
     concat (map (\<lambda>m. (case material_map m of None \<Rightarrow> [] | Some tx \<Rightarrow> [Texture tx])
                     @ (case material_emissiveMap m of None \<Rightarrow> [] | Some tx \<Rightarrow> [Texture tx]))
                 ms)"

definition disposeCity :: "city option \<Rightarrow> stage \<Rightarrow> stage" where
  "disposeCity cur st =
     (case cur of
        None \<Rightarrow> st
      | Some c \<Rightarrow>
          st\<lparr> scene := remove1 (group c) (scene st),
              dispose_calls := dispose_calls st @ traverseDispose (group c)
                                 @ materialsDispose (materials c) \<rparr>)"

section \<open>Notions used in the statements\<close>

text \<open>
  \<open>draw k s\<close> is the number the generator returns at its \<open>(k+1)\<close>-th call when its
  captured word is \<open>s\<close>: every call adds \<open>0x6D2B79F5\<close> to the word.
\<close>

definition draw :: "nat \<Rightarrow> u32 \<Rightarrow> real" where
  "draw k s = fst (mulberry32 (s + word_of_nat k * 0x6D2B79F5))"

text \<open>
  The state at the entry of the block loops: three draws after the seed, nothing placed.
\<close>

definition gen0 :: "u32 \<Rightarrow> gen" where
  "gen0 sd = \<lparr> g_rng = sd + 3 * 0x6D2B79F5, g_idx = 0, g_buildings = [], g_parks = [], g_trees = [] \<rparr>"

text \<open>Line 293 for the built-in configuration: \<open>12 * 12 * Math.round(12 * density)\<close>.\<close>

definition totalEst :: "real \<Rightarrow> int" where
  "totalEst d = 144 * js_round (12 * d)"

text \<open>An environment to run concrete cities in: \<open>Math.random()\<close> always 1/2, by day.\<close>

definition env0 :: env where
  "env0 = \<lparr> mathRandom = (\<lambda>k. 1 / 2), isNight = False \<rparr>"

text \<open>
  The building of the first lot of block (0, 0) for seed 6 and density 1: that block is
  no park, and its first lot starts five draws after the seed.
\<close>

definition building_6 :: transform where
  "building_6 = fst (placeBuilding (blockLot (makeConfig 1) 0 0) (6 + 5 * 0x6D2B79F5))"

text \<open>
  The footprint of a building is the rectangle of width \<open>scale_x\<close> and depth \<open>scale_z\<close>
  around its position (the yaw is ignored). It overlaps a road when the two rectangles
  share an interior point.
\<close>

definition footprintOverlapsRoad :: "transform \<Rightarrow> plane \<Rightarrow> bool" where
  "footprintOverlapsRoad b r \<longleftrightarrow>
     position_x b - scale_x b / 2 < plane_x r + plane_w r / 2
     \<and> plane_x r - plane_w r / 2 < position_x b + scale_x b / 2
     \<and> position_z b - scale_z b / 2 < plane_z r + plane_h r / 2
     \<and> plane_z r - plane_h r / 2 < position_z b + scale_z b / 2"

text \<open>
  The lot counts the block loops compute (the variable \<open>lots\<close> after line 339), one for
  each block that is no park, in the order of the loops. This is an observer of the
  loop: it replays \<open>blockStep\<close> and collects what the source never stores.
\<close>

fun lotDraws :: "config \<Rightarrow> int \<Rightarrow> (nat \<times> nat) list \<Rightarrow> gen \<Rightarrow> nat list" where
  "lotDraws cfg cap [] g = []"
| "lotDraws cfg cap (p # ps) g =
     (let (u, s1) = mulberry32 (g_rng g)
      in if u < parkChance cfg then []
         else [nat (lotCount cfg (fst (randInt 8 18 s1)))])
     @ lotDraws cfg cap ps (blockStep cfg cap p g)"

text \<open>A car to run the traffic update on: speed 13 on a lane along X, a cycle of 910.\<close>

definition car0 :: car where
  "car0 = \<lparr> car_lane = LaneX (- 426) 1, car_color = (1 / 2, 0.6, 0.5), car_speed = 13,
            car_t = 1 / 4, car_length = 910 \<rparr>"

text \<open>
  What a generation run produces from the generator: the road meshes, the park meshes
  (a block is a park exactly when a park mesh lies at its centre), the building
  matrices and their count, the trees, the lanes and the cars with their lane, colour,
  speed, initial progress and cycle length.
\<close>

definition generated ::
  "city \<Rightarrow> plane list \<times> plane list \<times> transform list \<times> nat \<times> tree list \<times> lane list \<times> car list" where
  "generated c = (roads c, parks c, buildings c, count c, trees c, lanes c, cars c)"

text \<open>A second environment: other values of \<open>Math.random()\<close>, by night.\<close>

definition env1 :: env where
  "env1 = \<lparr> mathRandom = (\<lambda>k. 1 / (2 + real k)), isNight = True \<rparr>"

text \<open>A stage whose scene holds the group of the city that is about to be disposed.\<close>

definition stageOf :: "city \<Rightarrow> stage" where
  "stageOf c = \<lparr> scene = [group c], dispose_calls = [] \<rparr>"

text \<open>
  The tree count of a park block and the lot count of a building block that the block
  loops enter with the generator word \<open>s\<close>: the second draw from \<open>s\<close> decides them.
\<close>

definition treesAt :: "u32 \<Rightarrow> nat" where
  "treesAt s = nat (fst (randInt 6 14 (s + 0x6D2B79F5)))"

definition lotsAt :: "config \<Rightarrow> u32 \<Rightarrow> nat" where
  "lotsAt cfg s = nat (lotCount cfg (fst (randInt 8 18 (s + 0x6D2B79F5))))"

text \<open>
  The block loops seen through the generator word and the running count alone:
  \<open>dropRun cfg cap n (s, i, a)\<close> runs \<open>n\<close> blocks from the word \<open>s\<close> and the count \<open>i\<close> and
  returns the word and the count it ends with, and \<open>a\<close> plus the lot counts of the
  building blocks. A park block takes two draws and two more for each tree; a building
  block takes two draws and seven more for each building it places.
\<close>

fun dropRun :: "config \<Rightarrow> int \<Rightarrow> nat \<Rightarrow> u32 \<times> nat \<times> nat \<Rightarrow> u32 \<times> nat \<times> nat" where
  "dropRun cfg cap 0 (s, i, a) = (s, i, a)"
| "dropRun cfg cap (Suc n) (s, i, a) =
     (if draw 0 s < parkChance cfg then
        dropRun cfg cap n (s + word_of_nat (2 + 2 * treesAt s) * 0x6D2B79F5, i, a)
      else
        dropRun cfg cap n
          (s + word_of_nat (2 + 7 * min (lotsAt cfg s) (nat cap - i)) * 0x6D2B79F5,
           i + min (lotsAt cfg s) (nat cap - i), a + lotsAt cfg s))"

text \<open>
  The three mixing steps of the generator (lines 8, 9 and 10), one function each, so
  that a draw at a given word is computed step by step.
\<close>

definition mix_a :: "u32 \<Rightarrow> u32" where
  "mix_a t = (t XOR drop_bit 15 t) * (t OR 1)"

definition mix_b :: "u32 \<Rightarrow> u32" where
  "mix_b t = t XOR (t + (t XOR drop_bit 7 t) * (t OR 61))"

definition mix_c :: "u32 \<Rightarrow> u32" where
  "mix_c t = t XOR drop_bit 14 t"

section \<open>The generator contract\<close>

lemma mulberry32_shape: "\<exists>w :: u32. fst (mulberry32 s) = real (unat w) / 4294967296"
  unfolding mulberry32_def Let_def fst_conv by (rule exI) (rule refl)

lemma mulberry32_nonneg: "0 \<le> fst (mulberry32 s)"
proof -
  obtain w :: u32 where w: "fst (mulberry32 s) = real (unat w) / 4294967296"
    using mulberry32_shape by blast
  have "0 \<le> real (unat w)"
    by (rule of_nat_0_le_iff)
  then show ?thesis
    unfolding w by (rule divide_nonneg_nonneg) simp
qed

lemma mulberry32_less_1: "fst (mulberry32 s) < 1"
proof -
  obtain w :: u32 where w: "fst (mulberry32 s) = real (unat w) / 4294967296"
    using mulberry32_shape by blast
  have "unat w < 4294967296"
    using unsigned_less [of w, where 'a = nat] by simp
  then have "real (unat w) < 4294967296"
    by (metis of_nat_less_iff of_nat_numeral)
  then show ?thesis
    unfolding w by simp
qed

lemma mulberry32_state: "snd (mulberry32 s) = s + 0x6D2B79F5"
  by (simp add: mulberry32_def Let_def)

lemma randRange_lower: "a \<le> b \<Longrightarrow> a \<le> fst (randRange a b s)"
  using mulberry32_nonneg [of s]
  by (simp add: randRange_def case_prod_beta)

lemma randRange_upper: "a < b \<Longrightarrow> fst (randRange a b s) < b"
proof -
  assume ab: "a < b"
  have "(b - a) * fst (mulberry32 s) < (b - a) * 1"
    using ab mulberry32_less_1 [of s] by (intro mult_strict_left_mono) simp_all
  then show ?thesis
    by (simp add: randRange_def case_prod_beta)
qed

lemma randRange_state: "snd (randRange a b s) = s + 0x6D2B79F5"
  by (simp add: randRange_def case_prod_beta mulberry32_state)

lemma randInt_lower: "a \<le> b \<Longrightarrow> a \<le> fst (randInt (of_int a) (of_int b) s)"
proof -
  assume "a \<le> b"
  then have "real_of_int a \<le> fst (randRange (of_int a) (of_int b + 1) s)"
    by (intro randRange_lower) simp
  then show ?thesis
    by (simp add: randInt_def case_prod_beta le_floor_iff)
qed

lemma randInt_upper: "a \<le> b \<Longrightarrow> fst (randInt (of_int a) (of_int b) s) \<le> b"
proof -
  assume "a \<le> b"
  then have "fst (randRange (of_int a) (of_int b + 1) s) < real_of_int (b + 1)"
    using randRange_upper [of "of_int a" "of_int b + 1" s] by simp
  then have "\<lfloor>fst (randRange (of_int a) (of_int b + 1) s)\<rfloor> < b + 1"
    by (simp only: floor_less_iff)
  then show ?thesis
    by (simp add: randInt_def case_prod_beta)
qed

lemma randInt_state: "snd (randInt a b s) = s + 0x6D2B79F5"
  by (simp add: randInt_def case_prod_beta randRange_state)



subsection \<open>Draws by position\<close>

lemma draw_nonneg: "0 \<le> draw k s"
  by (simp add: draw_def mulberry32_nonneg)

lemma draw_less_1: "draw k s < 1"
  by (simp add: draw_def mulberry32_less_1)

lemma randRange_draw: "randRange a b s = (a + (b - a) * draw 0 s, s + 0x6D2B79F5)"
  by (simp add: randRange_def case_prod_beta draw_def mulberry32_state)

lemma draw_shift: "draw k (s + 0x6D2B79F5) = draw (Suc k) s"
  by (simp add: draw_def algebra_simps)

lemma placeBuilding_draw:
  "placeBuilding l s =
     (\<lparr> position_x = blockMinX l + (blockMaxX l - blockMinX l) * draw 0 s,
        position_y = (0.2 + (1.0 - 0.2) * draw 4 s) powr 1.8 * (20 + (150 - 20) * draw 5 s) / 2,
        position_z = blockMinZ l + (blockMaxZ l - blockMinZ l) * draw 1 s,
        scale_x = 8 + (16 - 8) * draw 2 s,
        scale_y = (0.2 + (1.0 - 0.2) * draw 4 s) powr 1.8 * (20 + (150 - 20) * draw 5 s),
        scale_z = 8 + (16 - 8) * draw 3 s,
        rotation_y = - 0.07 + (0.07 - (- 0.07)) * draw 6 s \<rparr>,
      s + 7 * 0x6D2B79F5)"
  apply (simp add: placeBuilding_def randRange_draw Let_def draw_shift)
  apply (simp add: draw_def)
  done

section \<open>Buildings\<close>

subsection \<open>Every building comes from a lot of a block\<close>

lemma lotLoop_set:
  "b \<in> set (g_buildings (lotLoop T l n g)) \<Longrightarrow>
     b \<in> set (g_buildings g) \<or> (\<exists>s. b = fst (placeBuilding l s))"
proof (induction n arbitrary: g)
  case 0
  then show ?case by simp
next
  case (Suc n)
  show ?case
  proof (cases "T \<le> int (g_idx g)")
    case True
    with Suc.prems show ?thesis by simp
  next
    case False
    let ?g = "g\<lparr> g_rng := snd (placeBuilding l (g_rng g)), g_idx := Suc (g_idx g),
                  g_buildings := g_buildings g @ [fst (placeBuilding l (g_rng g))] \<rparr>"
    from False Suc.prems have "b \<in> set (g_buildings (lotLoop T l n ?g))"
      by (simp add: case_prod_beta)
    from Suc.IH [OF this] show ?thesis by auto
  qed
qed

lemma treeLoop_buildings: "g_buildings (treeLoop l n g) = g_buildings g"
  by (induction n arbitrary: g) (simp_all add: case_prod_beta)

lemma treeLoop_idx: "g_idx (treeLoop l n g) = g_idx g"
  by (induction n arbitrary: g) (simp_all add: case_prod_beta)

lemma blockStep_set:
  "b \<in> set (g_buildings (blockStep cfg T p g)) \<Longrightarrow>
     b \<in> set (g_buildings g) \<or> (\<exists>s. b = fst (placeBuilding (blockLot cfg (fst p) (snd p)) s))"
  unfolding blockStep_def Let_def
  by (auto simp add: case_prod_beta treeLoop_buildings split: if_splits dest!: lotLoop_set)

lemma fold_blockStep_set:
  "b \<in> set (g_buildings (fold (blockStep cfg T) ps g)) \<Longrightarrow>
     b \<in> set (g_buildings g)
     \<or> (\<exists>p s. p \<in> set ps \<and> b = fst (placeBuilding (blockLot cfg (fst p) (snd p)) s))"
proof (induction ps arbitrary: g)
  case Nil
  then show ?case by simp
next
  case (Cons p ps)
  from Cons.prems have "b \<in> set (g_buildings (fold (blockStep cfg T) ps (blockStep cfg T p g)))"
    by simp
  from Cons.IH [OF this] show ?case
    using blockStep_set [of b cfg T p g] by fastforce
qed

lemma set_blockOrder: "set (blockOrder cfg) = {p. fst p < blocksX cfg \<and> snd p < blocksZ cfg}"
  by (auto simp add: blockOrder_def)

lemma blockLoop_set:
  "b \<in> set (g_buildings (blockLoop cfg T g)) \<Longrightarrow> g_buildings g = [] \<Longrightarrow>
     \<exists>bx bz s. bx < blocksX cfg \<and> bz < blocksZ cfg \<and> b = fst (placeBuilding (blockLot cfg bx bz) s)"
  unfolding blockLoop_def
  using fold_blockStep_set [of b cfg T "blockOrder cfg" g]
  by (auto simp add: set_blockOrder)

subsection \<open>What createCity returns\<close>

lemma makeConfig_simps [simp]:
  "blocksX (makeConfig d) = 12"
  "blocksZ (makeConfig d) = 12"
  "blockSize (makeConfig d) = 70"
  "roadWidth (makeConfig d) = 36"
  "lotPadding (makeConfig d) = 4"
  "buildingCountEstimate (makeConfig d) = js_round (12 * d)"
  "densityFactor (makeConfig d) = d"
  "laneOffset (makeConfig d) = 6"
  "parkChance (makeConfig d) = 0.14"
  by (simp_all add: makeConfig_def)

lemma facade_draws_state:
  "snd (randInt a3 b3 (snd (randInt a2 b2 (snd (randInt a1 b1 sd))))) = sd + 3 * 0x6D2B79F5"
  by (simp add: randInt_state)

lemma createCity_unfold:
  "createCity sd d e =
     (if totalEst d < 0 then Inl RangeError
      else (let g = blockLoop (makeConfig d) (totalEst d) (gen0 sd)
            in case carLoop (makeConfig d) (makeLanes (makeConfig d)) 144 (g_rng g) [] of
                 Inl err \<Rightarrow> Inl err
               | Inr (cs, s4) \<Rightarrow>
                   Inr \<lparr> group = groupMeshes (makeConfig d) (length (g_parks g)) (length (g_trees g)),
                         config = makeConfig d,
                         roads = makeRoads (makeConfig d),
                         sidewalks = makeSidewalks (makeConfig d),
                         parks = g_parks g,
                         trees = g_trees g,
                         capacity = totalEst d,
                         buildings = g_buildings g,
                         count = g_idx g,
                         bodyMatrices = [], roofMatrices = [], wheelMatrices = [],
                         cars = cs,
                         lanes = makeLanes (makeConfig d),
                         materials = [BuildingMat, RoadMat, SidewalkMat, BodyMat, GlassMat,
                                      WheelMat],
                         roadTexture = fst (makeRoadTexture (mathRandom e) 0),
                         facadeTexture =
                           fst (makeFacadeTexture (mathRandom e)
                                  (snd (makeRoadTexture (mathRandom e) 0)) (isNight e)
                                  (fst (randInt 6 10 sd))
                                  (fst (randInt 12 20 (sd + 0x6D2B79F5)))
                                  (facadeBase (fst (randInt 0 3 (sd + 2 * 0x6D2B79F5))))),
                         emissiveIntensity = (if isNight e then 0.7 else 0.12),
                         seed = sd \<rparr>))"
  unfolding createCity_def Let_def case_prod_beta totalEst_def gen0_def
  by (simp add: randInt_state add.commute cong: sum.case_cong if_cong)

lemma createCity_Inr:
  assumes "createCity sd d e = Inr c"
  shows "0 \<le> totalEst d"
    and "capacity c = totalEst d"
    and "buildings c = g_buildings (blockLoop (makeConfig d) (totalEst d) (gen0 sd))"
    and "count c = g_idx (blockLoop (makeConfig d) (totalEst d) (gen0 sd))"
    and "parks c = g_parks (blockLoop (makeConfig d) (totalEst d) (gen0 sd))"
    and "trees c = g_trees (blockLoop (makeConfig d) (totalEst d) (gen0 sd))"
    and "roads c = makeRoads (makeConfig d)"
    and "lanes c = makeLanes (makeConfig d)"
    and "config c = makeConfig d"
    and "materials c = [BuildingMat, RoadMat, SidewalkMat, BodyMat, GlassMat, WheelMat]"
  using assms
  unfolding createCity_unfold Let_def
  by (auto split: if_splits sum.splits)

subsection \<open>Buildings once written stay\<close>

lemma lotLoop_append: "\<exists>ys. g_buildings (lotLoop T l n g) = g_buildings g @ ys"
proof (induction n arbitrary: g)
  case 0
  then show ?case by simp
next
  case (Suc n)
  show ?case
  proof (cases "T \<le> int (g_idx g)")
    case True
    then show ?thesis by simp
  next
    case False
    let ?g = "g\<lparr> g_rng := snd (placeBuilding l (g_rng g)), g_idx := Suc (g_idx g),
                  g_buildings := g_buildings g @ [fst (placeBuilding l (g_rng g))] \<rparr>"
    from Suc.IH [of ?g] obtain ys where "g_buildings (lotLoop T l n ?g) = g_buildings ?g @ ys"
      by blast
    with False show ?thesis
      by (simp add: case_prod_beta)
  qed
qed

lemma blockStep_append: "\<exists>ys. g_buildings (blockStep cfg T p g) = g_buildings g @ ys"
proof -
  have "\<exists>ys. g_buildings (lotLoop T l n (g\<lparr> g_rng := s \<rparr>)) = g_buildings g @ ys" for l n s
    using lotLoop_append [of T l n "g\<lparr> g_rng := s \<rparr>"] by simp
  then show ?thesis
    unfolding blockStep_def Let_def
    by (simp add: case_prod_beta treeLoop_buildings)
qed

lemma fold_blockStep_append:
  "\<exists>ys. g_buildings (fold (blockStep cfg T) ps g) = g_buildings g @ ys"
proof (induction ps arbitrary: g)
  case Nil
  then show ?case by simp
next
  case (Cons p ps)
  obtain ys where ys: "g_buildings (blockStep cfg T p g) = g_buildings g @ ys"
    using blockStep_append by blast
  obtain zs where "g_buildings (fold (blockStep cfg T) ps (blockStep cfg T p g))
      = g_buildings (blockStep cfg T p g) @ zs"
    using Cons.IH by blast
  with ys show ?case by simp
qed

subsection \<open>The car loop never fails, so createCity returns a city\<close>

lemma carLoop_total:
  "lns \<noteq> [] \<Longrightarrow> \<exists>cs s'. carLoop cfg lns n s acc = Inr (cs, s')"
proof (induction n arbitrary: s acc)
  case 0
  then show ?case by simp
next
  case (Suc n)
  have le: "(0::int) \<le> int (length lns) - 1"
    using Suc.prems by (cases lns) simp_all
  have eq: "real (length lns) - 1 = real_of_int (int (length lns) - 1)"
    by simp
  have lo: "0 \<le> fst (randInt 0 (real (length lns) - 1) s)"
    using randInt_lower [OF le, of s] unfolding eq by simp
  have hi: "fst (randInt 0 (real (length lns) - 1) s) \<le> int (length lns) - 1"
    using randInt_upper [OF le, of s] unfolding eq by simp
  from lo hi Suc.IH [OF Suc.prems] show ?case
    by (simp add: case_prod_beta Let_def)
qed

lemma makeLanes_nonempty: "makeLanes cfg \<noteq> []"
  by (simp add: makeLanes_def upt_rec [of 0] Let_def)

lemma createCity_total: "0 \<le> totalEst d \<Longrightarrow> \<exists>c. createCity sd d e = Inr c"
proof -
  assume T: "0 \<le> totalEst d"
  obtain cs s' where
    "carLoop (makeConfig d) (makeLanes (makeConfig d)) 144
       (g_rng (blockLoop (makeConfig d) (totalEst d) (gen0 sd))) [] = Inr (cs, s')"
    using carLoop_total [OF makeLanes_nonempty] by blast
  with T show ?thesis
    unfolding createCity_unfold Let_def by simp
qed

lemma createCity_RangeError: "totalEst d < 0 \<Longrightarrow> createCity sd d e = Inl RangeError"
  unfolding createCity_unfold by simp

subsection \<open>The first building of a city\<close>

lemma blockOrder_makeConfig: "\<exists>ps. blockOrder (makeConfig d) = (0, 0) # ps"
  by (simp add: blockOrder_def upt_rec [of 0])

lemma lotCount_ge_2: "2 \<le> lotCount cfg n"
  by (simp add: lotCount_def)

lemma first_building:
  assumes np: "\<not> draw 3 sd < 0.14" and T: "0 < totalEst d"
    and c: "createCity sd d e = Inr c"
  shows "fst (placeBuilding (blockLot (makeConfig d) 0 0) (sd + 5 * 0x6D2B79F5))
           \<in> set (buildings c)"
proof -
  let ?cfg = "makeConfig d" and ?T = "totalEst d"
  let ?b = "fst (placeBuilding (blockLot ?cfg 0 0) (sd + 5 * 0x6D2B79F5))"
  obtain ps where ps: "blockOrder ?cfg = (0, 0) # ps"
    using blockOrder_makeConfig by blast
  define n where "n = nat (lotCount ?cfg (fst (randInt 8 18 (sd + 4 * 0x6D2B79F5))))"
  have "2 \<le> n"
    using lotCount_ge_2 [of ?cfg "fst (randInt 8 18 (sd + 4 * 0x6D2B79F5))"]
    unfolding n_def by linarith
  then obtain m where m: "n = Suc m"
    by (cases n) simp_all
  have u: "fst (mulberry32 (g_rng (gen0 sd))) = draw 3 sd"
    by (simp add: gen0_def draw_def)
  have step: "blockStep ?cfg ?T (0, 0) (gen0 sd)
      = lotLoop ?T (blockLot ?cfg 0 0) n ((gen0 sd)\<lparr> g_rng := sd + 5 * 0x6D2B79F5 \<rparr>)"
    using np unfolding blockStep_def Let_def case_prod_beta u n_def
    by (simp add: mulberry32_state randInt_state gen0_def add.commute)
  obtain ys where ys: "g_buildings (blockStep ?cfg ?T (0, 0) (gen0 sd)) = ?b # ys"
    using T lotLoop_append [of ?T "blockLot ?cfg 0 0" m
        "(gen0 sd)\<lparr> g_rng := snd (placeBuilding (blockLot ?cfg 0 0) (sd + 5 * 0x6D2B79F5)),
           g_idx := Suc 0, g_buildings := [?b] \<rparr>"]
    unfolding step m by (auto simp add: gen0_def case_prod_beta)
  obtain zs where "g_buildings (blockLoop ?cfg ?T (gen0 sd)) = (?b # ys) @ zs"
    using fold_blockStep_append [of ?cfg ?T ps "blockStep ?cfg ?T (0, 0) (gen0 sd)"]
    unfolding blockLoop_def ps ys by auto
  then show ?thesis
    using createCity_Inr(3) [OF c] by simp
qed

subsection \<open>Ranges of one building\<close>

lemma draw_at: "fst (mulberry32 (s + word_of_nat k * 0x6D2B79F5)) = draw k s"
  by (simp add: draw_def)

lemma randRange_at:
  "fst (randRange a b (s + word_of_nat k * 0x6D2B79F5)) = a + (b - a) * draw k s"
  by (simp add: randRange_def case_prod_beta draw_def)

lemma lot_makeConfig:
  "blockMaxX (blockLot (makeConfig d) bx bz) = blockMinX (blockLot (makeConfig d) bx bz) + 26"
  "blockMaxZ (blockLot (makeConfig d) bx bz) = blockMinZ (blockLot (makeConfig d) bx bz) + 26"
  by (simp_all add: blockLot_def citySizeX_def citySizeZ_def algebra_simps)

lemma scaled_draw_bounds:
  assumes "0 \<le> w"
  shows "a \<le> a + w * draw k s" and "a + w * draw k s \<le> a + w"
proof -
  show "a \<le> a + w * draw k s"
    using assms draw_nonneg [of k s] by simp
  have "w * draw k s \<le> w * 1"
    using assms draw_less_1 [of k s] by (intro mult_left_mono) simp_all
  then show "a + w * draw k s \<le> a + w" by simp
qed

lemma scaled_draw_less:
  assumes "0 < w"
  shows "a + w * draw k s < a + w"
proof -
  have "w * draw k s < w * 1"
    using assms draw_less_1 [of k s] by (intro mult_strict_left_mono) simp_all
  then show ?thesis by simp
qed

lemma height_bounds:
  fixes u1 u2 :: real
  assumes "0.2 \<le> u1" "u1 < 1" "20 \<le> u2" "u2 < 150"
  shows "0.2 powr 1.8 * 20 \<le> u1 powr 1.8 * u2" and "u1 powr 1.8 * u2 < 150"
    and "0 < u1 powr 1.8 * u2"
proof -
  have lo: "(0.2::real) powr 1.8 \<le> u1 powr 1.8"
    using assms(1) by (intro powr_mono2) simp_all
  have pos: "0 < (0.2::real) powr 1.8"
    by simp
  have hi: "u1 powr 1.8 \<le> 1 powr 1.8"
    using assms(1,2) by (intro powr_mono2) simp_all
  show "0.2 powr 1.8 * 20 \<le> u1 powr 1.8 * u2"
    using lo assms(3) pos by (intro mult_mono) simp_all
  have "u1 powr 1.8 * u2 \<le> 1 * u2"
    using hi assms(3) by (intro mult_right_mono) simp_all
  then show "u1 powr 1.8 * u2 < 150"
    using assms(4) by simp
  have "0 < u1 powr 1.8"
    using assms(1) by simp
  then show "0 < u1 powr 1.8 * u2"
    using assms(3) by (intro mult_pos_pos) simp_all
qed

lemma height_draw_bounds:
  "0.2 powr 1.8 * 20 \<le> (0.2 + (1.0 - 0.2) * draw j s) powr 1.8 * (20 + (150 - 20) * draw k s)"
  "(0.2 + (1.0 - 0.2) * draw j s) powr 1.8 * (20 + (150 - 20) * draw k s) < 150"
  "0 < (0.2 + (1.0 - 0.2) * draw j s) powr 1.8 * (20 + (150 - 20) * draw k s)"
proof -
  have a: "0.2 \<le> 0.2 + (1.0 - 0.2) * draw j s"
    using scaled_draw_bounds(1) [of "1.0 - 0.2" "0.2" j s] by simp
  have b: "0.2 + (1.0 - 0.2) * draw j s < 1"
    using scaled_draw_less [of "1.0 - 0.2" "0.2" j s] by simp
  have c: "20 \<le> 20 + (150 - 20) * draw k s"
    using scaled_draw_bounds(1) [of "150 - 20" 20 k s] by simp
  have d: "20 + (150 - 20) * draw k s < 150"
    using scaled_draw_less [of "150 - 20" 20 k s] by simp
  show "0.2 powr 1.8 * 20 \<le> (0.2 + (1.0 - 0.2) * draw j s) powr 1.8 * (20 + (150 - 20) * draw k s)"
    by (rule height_bounds(1) [OF a b c d])
  show "(0.2 + (1.0 - 0.2) * draw j s) powr 1.8 * (20 + (150 - 20) * draw k s) < 150"
    by (rule height_bounds(2) [OF a b c d])
  show "0 < (0.2 + (1.0 - 0.2) * draw j s) powr 1.8 * (20 + (150 - 20) * draw k s)"
    by (rule height_bounds(3) [OF a b c d])
qed

lemma city_building:
  assumes "createCity sd d e = Inr c" and "b \<in> set (buildings c)"
  shows "\<exists>bx bz s. bx < 12 \<and> bz < 12 \<and> b = fst (placeBuilding (blockLot (makeConfig d) bx bz) s)"
  using blockLoop_set [of b "makeConfig d" "totalEst d" "gen0 sd"] assms createCity_Inr(3) [OF assms(1)]
  by (simp add: gen0_def)

subsection \<open>The draws of seed 6\<close>

lemma draws_seed_6:
  "draw 3 6 = 868282189 / 4294967296"
  "draw 4 6 = 2328385914 / 4294967296"
  "draw 5 6 = 303928501 / 4294967296"
  "draw 6 6 = 19489881 / 4294967296"
  "draw 7 6 = 3955348776 / 4294967296"
  "draw 8 6 = 4168504735 / 4294967296"
  "draw 9 6 = 902170156 / 4294967296"
  "draw 10 6 = 4011483957 / 4294967296"
  "draw 11 6 = 1643853317 / 4294967296"
  by (simp_all add: draw_def mulberry32_def Let_def)

lemma draw_plus_5: "draw k (s + 5 * 0x6D2B79F5) = draw (k + 5) s"
  by (simp add: draw_def algebra_simps)

lemma totalEst_1: "totalEst 1 = 1728"
  by (simp add: totalEst_def js_round_def)

lemma building_6_fields:
  "position_x building_6 = - 398 + 26 * (303928501 / 4294967296)"
  "position_z building_6 = - 398 + 26 * (19489881 / 4294967296)"
  "scale_x building_6 = 8 + 8 * (3955348776 / 4294967296)"
  "scale_z building_6 = 8 + 8 * (4168504735 / 4294967296)"
  "scale_y building_6 = (0.2 + 0.8 * (902170156 / 4294967296)) powr 1.8
                          * (20 + 130 * (4011483957 / 4294967296))"
  unfolding building_6_def placeBuilding_draw draw_plus_5
  by (simp_all add: draws_seed_6 blockLot_def citySizeX_def citySizeZ_def)

lemma building_6_in_city:
  assumes "createCity 6 1 e = Inr c"
  shows "building_6 \<in> set (buildings c)"
  unfolding building_6_def
  using first_building [of 6 1 e c] assms
  by (simp add: draws_seed_6 totalEst_1)

lemma city_6_exists: "\<exists>c. createCity 6 1 e = Inr c"
  by (rule createCity_total) (simp add: totalEst_1)

subsection \<open>The height formula\<close>

text \<open>
  Claim C3. Every building of a generated city is the result of the seven draws of one
  lot: its width and depth are the third and fourth draw, and its height is
  \<open>u1 powr 1.8 * u2\<close>, where \<open>u1\<close> is the fifth draw, taken by \<open>randRange 0.2 1.0\<close> and so
  in \<open>[0.2, 1)\<close>, and \<open>u2\<close> is the sixth, taken by \<open>randRange 20 150\<close> and so in
  \<open>[20, 150)\<close>. The captured word of the generator after \<open>k\<close> draws from \<open>s\<close> is
  \<open>s + k * 0x6D2B79F5\<close>.
\<close>

theorem building_height_formula:
  "createCity sd d e = Inr c \<Longrightarrow>
   \<forall>b\<in>set (buildings c). \<exists>bx bz s. bx < 12 \<and> bz < 12
     \<and> b = fst (placeBuilding (blockLot (makeConfig d) bx bz) s)
     \<and> scale_x b = fst (randRange 8 16 (s + 2 * 0x6D2B79F5))
     \<and> scale_z b = fst (randRange 8 16 (s + 3 * 0x6D2B79F5))
     \<and> scale_y b = fst (randRange 0.2 1.0 (s + 4 * 0x6D2B79F5)) powr 1.8
                    * fst (randRange 20 150 (s + 5 * 0x6D2B79F5))
     \<and> 0.2 \<le> fst (randRange 0.2 1.0 (s + 4 * 0x6D2B79F5))
     \<and> fst (randRange 0.2 1.0 (s + 4 * 0x6D2B79F5)) < 1
     \<and> 20 \<le> fst (randRange 20 150 (s + 5 * 0x6D2B79F5))
     \<and> fst (randRange 20 150 (s + 5 * 0x6D2B79F5)) < 150"
proof
  fix b
  assume c: "createCity sd d e = Inr c" and b: "b \<in> set (buildings c)"
  obtain bx bz s where bx: "bx < 12" and bz: "bz < 12"
    and eq: "b = fst (placeBuilding (blockLot (makeConfig d) bx bz) s)"
    using city_building [OF c b] by blast
  have r2: "fst (randRange 8 16 (s + 2 * 0x6D2B79F5)) = 8 + (16 - 8) * draw 2 s"
    using randRange_at [of 8 16 s 2] by simp
  have r3: "fst (randRange 8 16 (s + 3 * 0x6D2B79F5)) = 8 + (16 - 8) * draw 3 s"
    using randRange_at [of 8 16 s 3] by simp
  have r4: "fst (randRange 0.2 1.0 (s + 4 * 0x6D2B79F5)) = 0.2 + (1.0 - 0.2) * draw 4 s"
    using randRange_at [of "0.2" "1.0" s 4] by simp
  have r5: "fst (randRange 20 150 (s + 5 * 0x6D2B79F5)) = 20 + (150 - 20) * draw 5 s"
    using randRange_at [of 20 150 s 5] by simp
  have u1: "0.2 \<le> 0.2 + (1.0 - 0.2) * draw 4 s" "0.2 + (1.0 - 0.2) * draw 4 s < 1"
    using scaled_draw_bounds(1) [of "1.0 - 0.2" "0.2" 4 s]
      scaled_draw_less [of "1.0 - 0.2" "0.2" 4 s] by simp_all
  have u2: "20 \<le> 20 + (150 - 20) * draw 5 s" "20 + (150 - 20) * draw 5 s < 150"
    using scaled_draw_bounds(1) [of "150 - 20" 20 5 s]
      scaled_draw_less [of "150 - 20" 20 5 s] by simp_all
  have f: "scale_x b = fst (randRange 8 16 (s + 2 * 0x6D2B79F5))"
    "scale_z b = fst (randRange 8 16 (s + 3 * 0x6D2B79F5))"
    "scale_y b = fst (randRange 0.2 1.0 (s + 4 * 0x6D2B79F5)) powr 1.8
                   * fst (randRange 20 150 (s + 5 * 0x6D2B79F5))"
    unfolding r2 r3 r4 r5 eq placeBuilding_draw by simp_all
  have g: "0.2 \<le> fst (randRange 0.2 1.0 (s + 4 * 0x6D2B79F5))"
    "fst (randRange 0.2 1.0 (s + 4 * 0x6D2B79F5)) < 1"
    "20 \<le> fst (randRange 20 150 (s + 5 * 0x6D2B79F5))"
    "fst (randRange 20 150 (s + 5 * 0x6D2B79F5)) < 150"
    unfolding r4 r5 using u1 u2 by simp_all
  from bx bz eq f g
  show "\<exists>bx bz s. bx < 12 \<and> bz < 12
     \<and> b = fst (placeBuilding (blockLot (makeConfig d) bx bz) s)
     \<and> scale_x b = fst (randRange 8 16 (s + 2 * 0x6D2B79F5))
     \<and> scale_z b = fst (randRange 8 16 (s + 3 * 0x6D2B79F5))
     \<and> scale_y b = fst (randRange 0.2 1.0 (s + 4 * 0x6D2B79F5)) powr 1.8
                    * fst (randRange 20 150 (s + 5 * 0x6D2B79F5))
     \<and> 0.2 \<le> fst (randRange 0.2 1.0 (s + 4 * 0x6D2B79F5))
     \<and> fst (randRange 0.2 1.0 (s + 4 * 0x6D2B79F5)) < 1
     \<and> 20 \<le> fst (randRange 20 150 (s + 5 * 0x6D2B79F5))
     \<and> fst (randRange 20 150 (s + 5 * 0x6D2B79F5)) < 150"
    by blast
qed

theorem building_height_formula_witness:
  "\<exists>c. createCity 6 1 env0 = Inr c \<and> building_6 \<in> set (buildings c)
     \<and> scale_y building_6 = (0.2 + 0.8 * (902170156 / 4294967296)) powr 1.8
                               * (20 + 130 * (4011483957 / 4294967296))
     \<and> (\<exists>bx bz s. bx < 12 \<and> bz < 12
           \<and> building_6 = fst (placeBuilding (blockLot (makeConfig 1) bx bz) s)
           \<and> scale_y building_6 = fst (randRange 0.2 1.0 (s + 4 * 0x6D2B79F5)) powr 1.8
                                    * fst (randRange 20 150 (s + 5 * 0x6D2B79F5)))"
proof -
  obtain c where c: "createCity 6 1 env0 = Inr c"
    using city_6_exists by blast
  have m: "building_6 \<in> set (buildings c)"
    by (rule building_6_in_city [OF c])
  from building_height_formula [OF c] m
  have "\<exists>bx bz s. bx < 12 \<and> bz < 12
           \<and> building_6 = fst (placeBuilding (blockLot (makeConfig 1) bx bz) s)
           \<and> scale_y building_6 = fst (randRange 0.2 1.0 (s + 4 * 0x6D2B79F5)) powr 1.8
                                    * fst (randRange 20 150 (s + 5 * 0x6D2B79F5))"
    by blast
  with c m building_6_fields(5) show ?thesis by blast
qed

subsection \<open>Bounds of position, footprint and height\<close>

lemma placed_building_bounds:
  assumes eq: "b = fst (placeBuilding (blockLot (makeConfig d) bx bz) s)"
  shows "blockMinX (blockLot (makeConfig d) bx bz) \<le> position_x b"
    and "position_x b \<le> blockMaxX (blockLot (makeConfig d) bx bz)"
    and "blockMinZ (blockLot (makeConfig d) bx bz) \<le> position_z b"
    and "position_z b \<le> blockMaxZ (blockLot (makeConfig d) bx bz)"
    and "8 \<le> scale_x b" and "scale_x b \<le> 16"
    and "8 \<le> scale_z b" and "scale_z b \<le> 16"
    and "0.2 powr 1.8 * 20 \<le> scale_y b" and "scale_y b < 150" and "0 < scale_y b"
proof -
  let ?l = "blockLot (makeConfig d) bx bz"
  show "blockMinX ?l \<le> position_x b" "position_x b \<le> blockMaxX ?l"
    using scaled_draw_bounds [of 26 "blockMinX ?l" 0 s]
    unfolding eq placeBuilding_draw by (simp_all add: lot_makeConfig)
  show "blockMinZ ?l \<le> position_z b" "position_z b \<le> blockMaxZ ?l"
    using scaled_draw_bounds [of 26 "blockMinZ ?l" 1 s]
    unfolding eq placeBuilding_draw by (simp_all add: lot_makeConfig)
  show "8 \<le> scale_x b" "scale_x b \<le> 16"
    using scaled_draw_bounds [of 8 8 2 s]
    unfolding eq placeBuilding_draw by simp_all
  show "8 \<le> scale_z b" "scale_z b \<le> 16"
    using scaled_draw_bounds [of 8 8 3 s]
    unfolding eq placeBuilding_draw by simp_all
  show "0.2 powr 1.8 * 20 \<le> scale_y b" "scale_y b < 150" "0 < scale_y b"
    using height_draw_bounds [of 4 s 5]
    unfolding eq placeBuilding_draw by simp_all
qed

text \<open>
  Claim C4. Every building of a generated city was placed in the lot rectangle of one
  of the 12 x 12 blocks, and its position lies in that rectangle; its height lies in
  \<open>[0, 150]\<close>; its width and its depth lie in \<open>[8, 16]\<close>.
\<close>

theorem building_bounds:
  "createCity sd d e = Inr c \<Longrightarrow>
   \<forall>b\<in>set (buildings c). \<exists>bx bz s. bx < 12 \<and> bz < 12
     \<and> b = fst (placeBuilding (blockLot (makeConfig d) bx bz) s)
     \<and> blockMinX (blockLot (makeConfig d) bx bz) \<le> position_x b
     \<and> position_x b \<le> blockMaxX (blockLot (makeConfig d) bx bz)
     \<and> blockMinZ (blockLot (makeConfig d) bx bz) \<le> position_z b
     \<and> position_z b \<le> blockMaxZ (blockLot (makeConfig d) bx bz)
     \<and> 0 \<le> scale_y b \<and> scale_y b \<le> 150
     \<and> 8 \<le> scale_x b \<and> scale_x b \<le> 16
     \<and> 8 \<le> scale_z b \<and> scale_z b \<le> 16"
proof
  fix b
  assume c: "createCity sd d e = Inr c" and b: "b \<in> set (buildings c)"
  obtain bx bz s where bx: "bx < 12" and bz: "bz < 12"
    and eq: "b = fst (placeBuilding (blockLot (makeConfig d) bx bz) s)"
    using city_building [OF c b] by blast
  note r = placed_building_bounds [OF eq]
  have h: "0 \<le> scale_y b" "scale_y b \<le> 150"
    using r(10) r(11) by simp_all
  from bx bz eq r(1-8) h
  show "\<exists>bx bz s. bx < 12 \<and> bz < 12
     \<and> b = fst (placeBuilding (blockLot (makeConfig d) bx bz) s)
     \<and> blockMinX (blockLot (makeConfig d) bx bz) \<le> position_x b
     \<and> position_x b \<le> blockMaxX (blockLot (makeConfig d) bx bz)
     \<and> blockMinZ (blockLot (makeConfig d) bx bz) \<le> position_z b
     \<and> position_z b \<le> blockMaxZ (blockLot (makeConfig d) bx bz)
     \<and> 0 \<le> scale_y b \<and> scale_y b \<le> 150
     \<and> 8 \<le> scale_x b \<and> scale_x b \<le> 16
     \<and> 8 \<le> scale_z b \<and> scale_z b \<le> 16"
    by blast
qed

theorem building_bounds_witness:
  "\<exists>c. createCity 6 1 env0 = Inr c \<and> building_6 \<in> set (buildings c)
     \<and> position_x building_6 = - 398 + 26 * (303928501 / 4294967296)
     \<and> position_z building_6 = - 398 + 26 * (19489881 / 4294967296)
     \<and> scale_x building_6 = 8 + 8 * (3955348776 / 4294967296)
     \<and> scale_z building_6 = 8 + 8 * (4168504735 / 4294967296)
     \<and> (\<exists>bx bz. bx < 12 \<and> bz < 12
           \<and> blockMinX (blockLot (makeConfig 1) bx bz) \<le> position_x building_6
           \<and> position_x building_6 \<le> blockMaxX (blockLot (makeConfig 1) bx bz)
           \<and> blockMinZ (blockLot (makeConfig 1) bx bz) \<le> position_z building_6
           \<and> position_z building_6 \<le> blockMaxZ (blockLot (makeConfig 1) bx bz))
     \<and> 0 \<le> scale_y building_6 \<and> scale_y building_6 \<le> 150"
proof -
  obtain c where c: "createCity 6 1 env0 = Inr c"
    using city_6_exists by blast
  have m: "building_6 \<in> set (buildings c)"
    by (rule building_6_in_city [OF c])
  from building_bounds [OF c] m
  have "(\<exists>bx bz. bx < 12 \<and> bz < 12
           \<and> blockMinX (blockLot (makeConfig 1) bx bz) \<le> position_x building_6
           \<and> position_x building_6 \<le> blockMaxX (blockLot (makeConfig 1) bx bz)
           \<and> blockMinZ (blockLot (makeConfig 1) bx bz) \<le> position_z building_6
           \<and> position_z building_6 \<le> blockMaxZ (blockLot (makeConfig 1) bx bz))
     \<and> 0 \<le> scale_y building_6 \<and> scale_y building_6 \<le> 150"
    by blast
  with c m building_6_fields(1-4) show ?thesis by blast
qed

subsection \<open>The floor of the height\<close>

lemma height_floor_value: "(1.1::real) < 0.2 powr 1.8 * 20" "(0.2::real) powr 1.8 * 20 < 1.11"
proof -
  have e: "((0.2::real) powr 1.8) ^ 5 = 0.2 ^ 9"
  proof -
    have "((0.2::real) powr 1.8) ^ 5 = 0.2 powr (1.8 * 5)"
      by (simp add: powr_powr flip: powr_numeral)
    also have "\<dots> = 0.2 powr (real 9)" by simp
    also have "\<dots> = 0.2 ^ 9" by (subst powr_realpow) simp_all
    finally show ?thesis .
  qed
  have "(0.055::real) ^ 5 < 0.2 ^ 9" by (simp add: power_divide)
  then have "(0.055::real) ^ 5 < ((0.2::real) powr 1.8) ^ 5" unfolding e .
  then have "(0.055::real) < 0.2 powr 1.8"
    by (rule power_less_imp_less_base) simp
  then show "(1.1::real) < 0.2 powr 1.8 * 20" by simp
  have "(0.2::real) ^ 9 < 0.0555 ^ 5" by (simp add: power_divide)
  then have "((0.2::real) powr 1.8) ^ 5 < 0.0555 ^ 5" unfolding e .
  then have "(0.2::real) powr 1.8 < 0.0555"
    by (rule power_less_imp_less_base) simp
  then show "(0.2::real) powr 1.8 * 20 < 1.11" by simp
qed

text \<open>
  Claim C10. The height of every building of a generated city is at least
  \<open>0.2 powr 1.8 * 20\<close>, a number between 1.10 and 1.11, and so strictly positive.
\<close>

theorem building_height_floor:
  "createCity sd d e = Inr c \<Longrightarrow>
   \<forall>b\<in>set (buildings c). 0.2 powr 1.8 * 20 \<le> scale_y b \<and> 1.1 < scale_y b \<and> 0 < scale_y b"
proof
  fix b
  assume c: "createCity sd d e = Inr c" and b: "b \<in> set (buildings c)"
  obtain bx bz s where eq: "b = fst (placeBuilding (blockLot (makeConfig d) bx bz) s)"
    using city_building [OF c b] by blast
  note r = placed_building_bounds [OF eq]
  from r(9) r(11) height_floor_value(1)
  show "0.2 powr 1.8 * 20 \<le> scale_y b \<and> 1.1 < scale_y b \<and> 0 < scale_y b"
    by simp
qed

theorem building_height_floor_witness:
  "\<exists>c. createCity 6 1 env0 = Inr c \<and> building_6 \<in> set (buildings c)
     \<and> scale_y building_6 = (0.2 + 0.8 * (902170156 / 4294967296)) powr 1.8
                               * (20 + 130 * (4011483957 / 4294967296))
     \<and> 0.2 powr 1.8 * 20 \<le> scale_y building_6 \<and> 1.1 < scale_y building_6"
proof -
  obtain c where c: "createCity 6 1 env0 = Inr c"
    using city_6_exists by blast
  have m: "building_6 \<in> set (buildings c)"
    by (rule building_6_in_city [OF c])
  from building_height_floor [OF c] m
  have "0.2 powr 1.8 * 20 \<le> scale_y building_6 \<and> 1.1 < scale_y building_6"
    by blast
  with c m building_6_fields(5) show ?thesis by blast
qed

subsection \<open>Buildings and roads\<close>

lemma road_cases:
  assumes "r \<in> set (makeRoads (makeConfig d))"
  shows "(\<exists>zi\<le>12. r = \<lparr> plane_w = 910, plane_h = 36, plane_x = 0, plane_y = 0,
                          plane_z = real zi * 70 - 420 \<rparr>)
       \<or> (\<exists>xi\<le>12. r = \<lparr> plane_w = 36, plane_h = 910, plane_x = real xi * 70 - 420,
                            plane_y = 0, plane_z = 0 \<rparr>)"
  using assms
  by (auto simp add: makeRoads_def roadsH_def roadsV_def citySizeX_def citySizeZ_def)

lemma lot_values:
  "blockMinX (blockLot (makeConfig d) bx bz) = real bx * 70 - 398"
  "blockMaxX (blockLot (makeConfig d) bx bz) = real bx * 70 - 372"
  "blockMinZ (blockLot (makeConfig d) bx bz) = real bz * 70 - 398"
  "blockMaxZ (blockLot (makeConfig d) bx bz) = real bz * 70 - 372"
  by (simp_all add: blockLot_def citySizeX_def citySizeZ_def algebra_simps)

lemma band_clear:
  fixes x :: real and i j :: nat
  assumes "real j * 70 - 398 \<le> x" "x \<le> real j * 70 - 372"
  shows "\<not> (x - 4 < real i * 70 - 420 + 18 \<and> real i * 70 - 420 - 18 < x + 4)"
proof (cases "i \<le> j")
  case True
  then have "real i \<le> real j" by simp
  with assms show ?thesis by simp
next
  case False
  then have "real j + 1 \<le> real i" by simp
  with assms show ?thesis by simp
qed

text \<open>
  Claim C5, as the code has it. The position of every building keeps the lot padding of
  4 from every road: a footprint of 8 by 8, the smallest that can be drawn, around the
  same position overlaps no road. (Widths and depths run up to 16, and the wider
  footprints can reach over the padding into a road.)
\<close>

theorem building_centre_clear_of_roads:
  "createCity sd d e = Inr c \<Longrightarrow>
   \<forall>b\<in>set (buildings c). \<forall>r\<in>set (roads c).
     \<not> footprintOverlapsRoad (b\<lparr> scale_x := 2 * lotPadding (config c),
                                   scale_z := 2 * lotPadding (config c) \<rparr>) r"
proof (intro ballI)
  fix b r
  assume c: "createCity sd d e = Inr c" and b: "b \<in> set (buildings c)"
    and r: "r \<in> set (roads c)"
  obtain bx bz s where eq: "b = fst (placeBuilding (blockLot (makeConfig d) bx bz) s)"
    using city_building [OF c b] by blast
  note p = placed_building_bounds(1-4) [OF eq, unfolded lot_values]
  have pad: "lotPadding (config c) = 4"
    using createCity_Inr(9) [OF c] by simp
  from r have "r \<in> set (makeRoads (makeConfig d))"
    using createCity_Inr(7) [OF c] by simp
  then show "\<not> footprintOverlapsRoad (b\<lparr> scale_x := 2 * lotPadding (config c),
                                   scale_z := 2 * lotPadding (config c) \<rparr>) r"
  proof (elim road_cases [THEN disjE] exE conjE)
    fix zi :: nat
    assume "r = \<lparr> plane_w = 910, plane_h = 36, plane_x = 0, plane_y = 0,
                   plane_z = real zi * 70 - 420 \<rparr>"
    then show ?thesis
      using band_clear [OF p(3) p(4), of zi]
      by (auto simp add: footprintOverlapsRoad_def pad)
  next
    fix xi :: nat
    assume "r = \<lparr> plane_w = 36, plane_h = 910, plane_x = real xi * 70 - 420,
                   plane_y = 0, plane_z = 0 \<rparr>"
    then show ?thesis
      using band_clear [OF p(1) p(2), of xi]
      by (auto simp add: footprintOverlapsRoad_def pad)
  qed
qed

lemma road_13: "\<lparr> plane_w = 36, plane_h = 910, plane_x = - 420, plane_y = 0, plane_z = 0 \<rparr>
                 \<in> set (makeRoads (makeConfig 1))"
proof -
  have "\<lparr> plane_w = 36, plane_h = 910, plane_x = real (0::nat) * 70 - 840 / 2, plane_y = 0,
          plane_z = 0 \<rparr> \<in> set (roadsV (makeConfig 1))"
    unfolding roadsV_def by (simp add: citySizeX_def citySizeZ_def image_iff)
  then show ?thesis by (simp add: makeRoads_def)
qed

lemma building_6_overlaps:
  "footprintOverlapsRoad building_6
     \<lparr> plane_w = 36, plane_h = 910, plane_x = - 420, plane_y = 0, plane_z = 0 \<rparr>"
  by (simp add: footprintOverlapsRoad_def building_6_fields)

text \<open>
  Claim C5 as stated fails. For seed 6 and density 1 the first building of block (0, 0)
  is 15.37 wide and stands at \<open>x = -396.16\<close>, so its footprint starts at \<open>x = -403.84\<close>;
  the westmost vertical road, centred at \<open>x = -420\<close> and 36 wide, ends at \<open>x = -402\<close>.
\<close>

theorem building_overlaps_road_counterexample:
  "\<not> isl (createCity 6 1 env0)
   \<and> building_6 \<in> set (buildings (projr (createCity 6 1 env0)))
   \<and> \<lparr> plane_w = 36, plane_h = 910, plane_x = - 420, plane_y = 0, plane_z = 0 \<rparr>
       \<in> set (roads (projr (createCity 6 1 env0)))
   \<and> position_x building_6 - scale_x building_6 / 2 < - 403
   \<and> footprintOverlapsRoad building_6
       \<lparr> plane_w = 36, plane_h = 910, plane_x = - 420, plane_y = 0, plane_z = 0 \<rparr>"
proof -
  obtain c where c: "createCity 6 1 env0 = Inr c"
    using city_6_exists by blast
  have m: "building_6 \<in> set (buildings c)"
    by (rule building_6_in_city [OF c])
  have r: "\<lparr> plane_w = 36, plane_h = 910, plane_x = - 420, plane_y = 0, plane_z = 0 \<rparr>
             \<in> set (roads c)"
    using createCity_Inr(7) [OF c] road_13 by simp
  have x: "position_x building_6 - scale_x building_6 / 2 < - 403"
    by (simp add: building_6_fields)
  from m r x building_6_overlaps show ?thesis
    unfolding c by simp
qed

theorem building_centre_clear_of_roads_witness:
  "\<exists>c. createCity 6 1 env0 = Inr c \<and> building_6 \<in> set (buildings c)
     \<and> \<lparr> plane_w = 36, plane_h = 910, plane_x = - 420, plane_y = 0, plane_z = 0 \<rparr>
         \<in> set (roads c)
     \<and> lotPadding (config c) = 4
     \<and> \<not> footprintOverlapsRoad (building_6\<lparr> scale_x := 8, scale_z := 8 \<rparr>)
           \<lparr> plane_w = 36, plane_h = 910, plane_x = - 420, plane_y = 0, plane_z = 0 \<rparr>"
proof -
  obtain c where c: "createCity 6 1 env0 = Inr c"
    using city_6_exists by blast
  have m: "building_6 \<in> set (buildings c)"
    by (rule building_6_in_city [OF c])
  have r: "\<lparr> plane_w = 36, plane_h = 910, plane_x = - 420, plane_y = 0, plane_z = 0 \<rparr>
             \<in> set (roads c)"
    using createCity_Inr(7) [OF c] road_13 by simp
  have pad: "lotPadding (config c) = 4"
    using createCity_Inr(9) [OF c] by simp
  from building_centre_clear_of_roads [OF c] m r
  have "\<not> footprintOverlapsRoad (building_6\<lparr> scale_x := 2 * lotPadding (config c),
                                   scale_z := 2 * lotPadding (config c) \<rparr>)
           \<lparr> plane_w = 36, plane_h = 910, plane_x = - 420, plane_y = 0, plane_z = 0 \<rparr>"
    by blast
  then have "\<not> footprintOverlapsRoad (building_6\<lparr> scale_x := 8, scale_z := 8 \<rparr>)
           \<lparr> plane_w = 36, plane_h = 910, plane_x = - 420, plane_y = 0, plane_z = 0 \<rparr>"
    unfolding pad by simp
  with c m r pad show ?thesis by blast
qed

subsection \<open>The running count and the capacity\<close>

lemma lotLoop_full: "T \<le> int (g_idx g) \<Longrightarrow> lotLoop T l n g = g"
  by (cases n) simp_all

lemma lotLoop_idx:
  "g_idx g \<le> nat T \<Longrightarrow> g_idx (lotLoop T l n g) = min (g_idx g + n) (nat T)"
proof (induction n arbitrary: g)
  case 0
  then show ?case by simp
next
  case (Suc n)
  show ?case
  proof (cases "T \<le> int (g_idx g)")
    case True
    with Suc.prems show ?thesis by simp
  next
    case False
    let ?g = "g\<lparr> g_rng := snd (placeBuilding l (g_rng g)), g_idx := Suc (g_idx g),
                  g_buildings := g_buildings g @ [fst (placeBuilding l (g_rng g))] \<rparr>"
    from False have "g_idx ?g \<le> nat T" by simp
    from Suc.IH [OF this] False show ?thesis
      by (simp add: case_prod_beta)
  qed
qed

lemma lotLoop_length:
  "g_idx g = length (g_buildings g) \<Longrightarrow>
   g_idx (lotLoop T l n g) = length (g_buildings (lotLoop T l n g))"
proof (induction n arbitrary: g)
  case 0
  then show ?case by simp
next
  case (Suc n)
  show ?case
  proof (cases "T \<le> int (g_idx g)")
    case True
    with Suc.prems show ?thesis by simp
  next
    case False
    let ?g = "g\<lparr> g_rng := snd (placeBuilding l (g_rng g)), g_idx := Suc (g_idx g),
                  g_buildings := g_buildings g @ [fst (placeBuilding l (g_rng g))] \<rparr>"
    from Suc.prems have "g_idx ?g = length (g_buildings ?g)" by simp
    from Suc.IH [OF this] False show ?thesis
      by (simp add: case_prod_beta)
  qed
qed

lemma blockStep_length:
  "g_idx g = length (g_buildings g) \<Longrightarrow>
   g_idx (blockStep cfg T p g) = length (g_buildings (blockStep cfg T p g))"
  unfolding blockStep_def Let_def
  by (simp add: case_prod_beta treeLoop_buildings treeLoop_idx lotLoop_length)

lemma fold_blockStep_length:
  "g_idx g = length (g_buildings g) \<Longrightarrow>
   g_idx (fold (blockStep cfg T) ps g) = length (g_buildings (fold (blockStep cfg T) ps g))"
  by (induction ps arbitrary: g) (simp_all add: blockStep_length)

lemma blockStep_idx:
  assumes "g_idx g \<le> nat T"
  shows "g_idx (blockStep cfg T p g) = min (g_idx g + sum_list (lotDraws cfg T [p] g)) (nat T)"
  using assms unfolding blockStep_def Let_def
  by (simp add: case_prod_beta treeLoop_idx lotLoop_idx)

lemma lotDraws_Cons:
  "lotDraws cfg T (p # ps) g = lotDraws cfg T [p] g @ lotDraws cfg T ps (blockStep cfg T p g)"
  by (simp add: case_prod_beta)

lemma fold_blockStep_idx:
  "g_idx g \<le> nat T \<Longrightarrow>
   g_idx (fold (blockStep cfg T) ps g) = min (g_idx g + sum_list (lotDraws cfg T ps g)) (nat T)"
proof (induction ps arbitrary: g)
  case Nil
  then show ?case by simp
next
  case (Cons p ps)
  have le: "g_idx (blockStep cfg T p g) \<le> nat T"
    unfolding blockStep_idx [OF Cons.prems] by simp
  have "g_idx (fold (blockStep cfg T) (p # ps) g)
      = min (min (g_idx g + sum_list (lotDraws cfg T [p] g)) (nat T)
              + sum_list (lotDraws cfg T ps (blockStep cfg T p g))) (nat T)"
    using Cons.IH [OF le] unfolding blockStep_idx [OF Cons.prems] by simp
  also have "\<dots> = min (g_idx g + sum_list (lotDraws cfg T (p # ps) g)) (nat T)"
    unfolding lotDraws_Cons [of cfg T p ps g] by (simp add: min_def)
  finally show ?case .
qed

lemma blockStep_full:
  assumes "T \<le> int (g_idx g)"
  shows "g_buildings (blockStep cfg T p g) = g_buildings g"
    and "g_idx (blockStep cfg T p g) = g_idx g"
  using assms unfolding blockStep_def Let_def
  by (simp_all add: case_prod_beta treeLoop_buildings treeLoop_idx lotLoop_full)

lemma fold_blockStep_full:
  "T \<le> int (g_idx g) \<Longrightarrow>
   g_buildings (fold (blockStep cfg T) ps g) = g_buildings g
   \<and> g_idx (fold (blockStep cfg T) ps g) = g_idx g"
  by (induction ps arbitrary: g) (simp_all add: blockStep_full)

subsection \<open>The generator word along the loops\<close>

lemma placeBuilding_state: "snd (placeBuilding l s) = s + 7 * 0x6D2B79F5"
  by (simp add: placeBuilding_draw)

lemma treeLoop_rng: "g_rng (treeLoop l n g) = g_rng g + word_of_nat (2 * n) * 0x6D2B79F5"
  by (induction n arbitrary: g) (simp_all add: case_prod_beta randRange_state algebra_simps)

lemma lotLoop_rng_idx:
  "g_rng (lotLoop T l n g) = g_rng g + word_of_nat (7 * min n (nat T - g_idx g)) * 0x6D2B79F5
   \<and> g_idx (lotLoop T l n g) = g_idx g + min n (nat T - g_idx g)"
proof (induction n arbitrary: g)
  case 0
  then show ?case by simp
next
  case (Suc n)
  show ?case
  proof (cases "T \<le> int (g_idx g)")
    case True
    then have "nat T - g_idx g = 0" by simp
    with True show ?thesis by simp
  next
    case False
    let ?g = "g\<lparr> g_rng := snd (placeBuilding l (g_rng g)), g_idx := Suc (g_idx g),
                  g_buildings := g_buildings g @ [fst (placeBuilding l (g_rng g))] \<rparr>"
    from False have m: "min (Suc n) (nat T - g_idx g) = Suc (min n (nat T - Suc (g_idx g)))"
      by linarith
    from False have "lotLoop T l (Suc n) g = lotLoop T l n ?g"
      by (simp add: case_prod_beta)
    then show ?thesis
      unfolding m using Suc.IH [of ?g]
      by (simp add: placeBuilding_state algebra_simps)
  qed
qed

lemma blockStep_rng:
  "g_rng (blockStep cfg T p g) =
     (if draw 0 (g_rng g) < parkChance cfg then
        g_rng g + word_of_nat (2 + 2 * treesAt (g_rng g)) * 0x6D2B79F5
      else g_rng g + word_of_nat (2 + 7 * min (lotsAt cfg (g_rng g)) (nat T - g_idx g))
                       * 0x6D2B79F5)"
proof -
  have d: "fst (mulberry32 (g_rng g)) = draw 0 (g_rng g)"
    by (simp add: draw_def)
  show ?thesis
    unfolding blockStep_def Let_def case_prod_beta d treesAt_def lotsAt_def
    by (simp add: treeLoop_rng lotLoop_rng_idx mulberry32_state randInt_state algebra_simps)
qed

lemma blockStep_count:
  "g_idx (blockStep cfg T p g) =
     (if draw 0 (g_rng g) < parkChance cfg then g_idx g
      else g_idx g + min (lotsAt cfg (g_rng g)) (nat T - g_idx g))"
proof -
  have d: "fst (mulberry32 (g_rng g)) = draw 0 (g_rng g)"
    by (simp add: draw_def)
  show ?thesis
    unfolding blockStep_def Let_def case_prod_beta d lotsAt_def
    by (simp add: treeLoop_idx lotLoop_rng_idx mulberry32_state)
qed

lemma lotDraws_head:
  "lotDraws cfg T [p] g = (if draw 0 (g_rng g) < parkChance cfg then [] else [lotsAt cfg (g_rng g)])"
  by (simp add: case_prod_beta draw_def lotsAt_def mulberry32_state)

lemma dropRun_fold:
  "dropRun cfg T (length ps) (g_rng g, g_idx g, a)
     = (g_rng (fold (blockStep cfg T) ps g), g_idx (fold (blockStep cfg T) ps g),
        a + sum_list (lotDraws cfg T ps g))"
proof (induction ps arbitrary: g a)
  case Nil
  then show ?case by simp
next
  case (Cons p ps)
  let ?g = "blockStep cfg T p g"
  show ?case
  proof (cases "draw 0 (g_rng g) < parkChance cfg")
    case True
    then have "dropRun cfg T (length (p # ps)) (g_rng g, g_idx g, a)
        = dropRun cfg T (length ps) (g_rng ?g, g_idx ?g, a)"
      by (simp add: blockStep_rng blockStep_count)
    also have "\<dots> = (g_rng (fold (blockStep cfg T) ps ?g), g_idx (fold (blockStep cfg T) ps ?g),
        a + sum_list (lotDraws cfg T ps ?g))"
      by (rule Cons.IH)
    finally show ?thesis
      unfolding lotDraws_Cons [of cfg T p ps g] lotDraws_head using True by simp
  next
    case False
    then have "dropRun cfg T (length (p # ps)) (g_rng g, g_idx g, a)
        = dropRun cfg T (length ps) (g_rng ?g, g_idx ?g, a + lotsAt cfg (g_rng g))"
      by (simp add: blockStep_rng blockStep_count)
    also have "\<dots> = (g_rng (fold (blockStep cfg T) ps ?g), g_idx (fold (blockStep cfg T) ps ?g),
        a + lotsAt cfg (g_rng g) + sum_list (lotDraws cfg T ps ?g))"
      by (rule Cons.IH)
    finally show ?thesis
      unfolding lotDraws_Cons [of cfg T p ps g] lotDraws_head using False by simp
  qed
qed

lemma dropRun_add:
  "dropRun cfg T (m + n) x = dropRun cfg T n (dropRun cfg T m x)"
proof (induction m arbitrary: x)
  case 0
  then show ?case by (cases x) simp
next
  case (Suc m)
  obtain s i a where x: "x = (s, i, a)"
    by (cases x)
  show ?case
    unfolding x using Suc.IH by simp
qed

lemma dropRun_full:
  "\<exists>s' a'. dropRun cfg T n (s, nat T, a) = (s', nat T, a') \<and> a \<le> a'"
proof (induction n arbitrary: s a)
  case 0
  then show ?case by simp
next
  case (Suc n)
  show ?case
  proof (cases "draw 0 s < parkChance cfg")
    case True
    with Suc.IH [of "s + word_of_nat (2 + 2 * treesAt s) * 0x6D2B79F5" a]
    show ?thesis by simp
  next
    case False
    obtain s' a' where
      "dropRun cfg T n (s + word_of_nat 2 * 0x6D2B79F5, nat T, a + lotsAt cfg s) = (s', nat T, a')"
      and "a + lotsAt cfg s \<le> a'"
      using Suc.IH [of "s + word_of_nat 2 * 0x6D2B79F5" "a + lotsAt cfg s"] by blast
    with False show ?thesis by simp
  qed
qed

subsection \<open>A run that is cut: seed 6 at density 1/10\<close>

lemma mulberry32_mix:
  "fst (mulberry32 s) = real (unat (mix_c (mix_b (mix_a (s + 0x6D2B79F5))))) / 4294967296"
  unfolding mulberry32_def Let_def fst_conv mix_a_def mix_b_def mix_c_def ..

lemma draw_mix:
  "draw k s = real (unat (mix_c (mix_b (mix_a (s + word_of_nat k * 0x6D2B79F5 + 0x6D2B79F5)))))
                / 4294967296"
  unfolding draw_def mulberry32_mix ..

lemma randInt_at: "fst (randInt a b s) = \<lfloor>a + (b + 1 - a) * draw 0 s\<rfloor>"
  by (simp add: randInt_def randRange_def case_prod_beta draw_def)

lemma lotsAt_tenth: "lotsAt (makeConfig (1 / 10)) s = 2"
proof -
  define n where "n = fst (randInt 8 18 (s + 0x6D2B79F5))"
  have "8 \<le> n" "n \<le> 18"
    unfolding n_def using randInt_lower [of 8 18] randInt_upper [of 8 18] by simp_all
  then have "js_round (real_of_int n * (1 / 10)) \<le> 2"
    unfolding js_round_def by (simp add: floor_le_iff)
  then show ?thesis
    unfolding lotsAt_def lotCount_def n_def [symmetric] by simp
qed

lemma dropRun_numeral:
  "dropRun cfg cap (numeral v) (s, i, a) =
     (if draw 0 s < parkChance cfg then
        dropRun cfg cap (pred_numeral v) (s + word_of_nat (2 + 2 * treesAt s) * 0x6D2B79F5, i, a)
      else
        dropRun cfg cap (pred_numeral v)
          (s + word_of_nat (2 + 7 * min (lotsAt cfg s) (nat cap - i)) * 0x6D2B79F5,
           i + min (lotsAt cfg s) (nat cap - i), a + lotsAt cfg s))"
  by (simp add: numeral_eq_Suc)

lemma dropRun_6_tenth:
  "\<exists>s. dropRun (makeConfig (1 / 10)) 144 84 (6 + 3 * 0x6D2B79F5, 0, 0) = (s, 144, 146)"
  by (simp add: dropRun_numeral lotsAt_tenth treesAt_def randInt_at draw_mix
      mix_a_def mix_b_def mix_c_def)

lemma length_blockOrder: "length (blockOrder cfg) = blocksX cfg * blocksZ cfg"
  by (simp add: blockOrder_def length_concat comp_def sum_list_triv)

lemma totalEst_tenth: "totalEst (1 / 10) = 144"
  by (simp add: totalEst_def js_round_def)

lemma city_6_tenth:
  assumes c: "createCity 6 (1 / 10) e = Inr c"
  shows "capacity c = 144" and "count c = 144"
    and "146 \<le> sum_list (lotDraws (config c) (capacity c) (blockOrder (config c)) (gen0 6))"
proof -
  let ?cfg = "makeConfig (1 / 10)"
  note f = createCity_Inr [OF c, unfolded totalEst_tenth]
  show cap: "capacity c = 144"
    by (rule f(2))
  obtain s where s: "dropRun ?cfg 144 84 (6 + 3 * 0x6D2B79F5, 0, 0) = (s, 144, 146)"
    using dropRun_6_tenth by blast
  obtain s' a' where r: "dropRun ?cfg 144 60 (s, nat 144, 146) = (s', nat 144, a')"
    and a: "146 \<le> a'"
    using dropRun_full [of ?cfg 144 60 s 146] by blast
  have "dropRun ?cfg 144 (length (blockOrder ?cfg)) (g_rng (gen0 6), g_idx (gen0 6), 0)
      = dropRun ?cfg 144 (84 + 60) (6 + 3 * 0x6D2B79F5, 0, 0)"
    by (simp add: length_blockOrder gen0_def)
  also have "\<dots> = (s', 144, a')"
    unfolding dropRun_add s using r by simp
  finally have "g_idx (fold (blockStep ?cfg 144) (blockOrder ?cfg) (gen0 6)) = 144"
    and "sum_list (lotDraws ?cfg 144 (blockOrder ?cfg) (gen0 6)) = a'"
    unfolding dropRun_fold by simp_all
  then show "count c = 144"
    and "146 \<le> sum_list (lotDraws (config c) (capacity c) (blockOrder (config c)) (gen0 6))"
    unfolding f(4) f(9) cap blockLoop_def using a by simp_all
qed

subsection \<open>The overflow drop\<close>

text \<open>
  Claim C2. The instance buffer has the capacity \<open>12 * 12 * round (12 * density)\<close>. The
  count of a generated city is the number of its building matrices and never exceeds
  the capacity: it is the sum of the lot counts of the building blocks, cut at the
  capacity, so it is exactly the capacity when the lot counts add up to at least that.
  Once the running count has reached the capacity, the lot loop leaves the state as
  it is, and the rest of the blocks place no building.
\<close>

theorem capacity_overflow_drop:
  "createCity sd d e = Inr c \<Longrightarrow>
   capacity c = 12 * 12 * js_round (12 * d)
   \<and> count c = length (buildings c)
   \<and> int (count c) \<le> capacity c
   \<and> int (count c)
       = min (int (sum_list (lotDraws (config c) (capacity c) (blockOrder (config c)) (gen0 sd))))
             (capacity c)
   \<and> (\<forall>l n g. capacity c \<le> int (g_idx g) \<longrightarrow> lotLoop (capacity c) l n g = g)
   \<and> (\<forall>ps g. capacity c \<le> int (g_idx g) \<longrightarrow>
         g_buildings (fold (blockStep (config c) (capacity c)) ps g) = g_buildings g
         \<and> g_idx (fold (blockStep (config c) (capacity c)) ps g) = g_idx g)"
proof -
  assume c: "createCity sd d e = Inr c"
  note f = createCity_Inr [OF c]
  let ?cfg = "makeConfig d" and ?T = "totalEst d"
  have cap: "capacity c = 12 * 12 * js_round (12 * d)"
    unfolding f(2) totalEst_def by simp
  have len: "count c = length (buildings c)"
    unfolding f(3) f(4) blockLoop_def
    by (rule fold_blockStep_length) (simp add: gen0_def)
  have idx: "count c = min (sum_list (lotDraws ?cfg ?T (blockOrder ?cfg) (gen0 sd))) (nat ?T)"
    unfolding f(4) blockLoop_def
    using fold_blockStep_idx [of "gen0 sd" ?T ?cfg "blockOrder ?cfg"]
    by (simp add: gen0_def)
  have eq: "int (count c)
       = min (int (sum_list (lotDraws (config c) (capacity c) (blockOrder (config c)) (gen0 sd))))
             (capacity c)"
  proof -
    define n where "n = sum_list (lotDraws ?cfg ?T (blockOrder ?cfg) (gen0 sd))"
    have "count c = min n (nat ?T)"
      unfolding n_def by (rule idx)
    with f(1) have "int (count c) = min (int n) ?T"
      by arith
    then show ?thesis
      unfolding f(2) f(9) n_def .
  qed
  have le: "int (count c) \<le> capacity c"
    unfolding eq by simp
  from cap len le eq show ?thesis
    using lotLoop_full fold_blockStep_full by blast
qed

text \<open>
  A run that is cut: for seed 6 at density 1/10 the capacity is \<open>144 * round 1.2 = 144\<close>
  and every building block asks for two lots. The count reaches 144 in the 83rd block;
  the lot counts of the first 84 blocks add up to 146, and the city has exactly 144
  buildings.
\<close>

theorem capacity_overflow_drop_witness:
  "\<exists>c. createCity 6 (1 / 10) env0 = Inr c \<and> capacity c = 144
     \<and> count c = 144 \<and> length (buildings c) = 144
     \<and> 146 \<le> sum_list (lotDraws (config c) (capacity c) (blockOrder (config c)) (gen0 6))
     \<and> lotLoop 144 (blockLot (makeConfig (1 / 10)) 0 0) 2 ((gen0 6)\<lparr> g_idx := 144 \<rparr>)
         = (gen0 6)\<lparr> g_idx := 144 \<rparr>"
proof -
  obtain c where c: "createCity 6 (1 / 10) env0 = Inr c"
    using createCity_total [of "1 / 10" 6 env0] by (auto simp add: totalEst_tenth)
  note t = city_6_tenth [OF c]
  have g: "capacity c \<le> int (g_idx ((gen0 6)\<lparr> g_idx := 144 \<rparr>))"
    unfolding t(1) by simp
  from capacity_overflow_drop [OF c] g
  have "count c = length (buildings c)
     \<and> lotLoop (capacity c) (blockLot (makeConfig (1 / 10)) 0 0) 2 ((gen0 6)\<lparr> g_idx := 144 \<rparr>)
         = (gen0 6)\<lparr> g_idx := 144 \<rparr>"
    by blast
  with c t show ?thesis by auto
qed

section \<open>Traffic\<close>

subsection \<open>Progress along the lane\<close>

lemma js_rem_1_nonneg: "0 \<le> a \<Longrightarrow> js_rem a 1 = frac a"
  by (simp add: js_rem_def frac_def)

lemma advance_fields [simp]:
  "car_lane (advance dt c) = car_lane c"
  "car_speed (advance dt c) = car_speed c"
  "car_length (advance dt c) = car_length c"
  "car_color (advance dt c) = car_color c"
  by (simp_all add: advance_def)

lemma fold_advance_fields [simp]:
  "car_lane (fold advance dts c) = car_lane c"
  "car_speed (fold advance dts c) = car_speed c"
  "car_length (fold advance dts c) = car_length c"
  "car_color (fold advance dts c) = car_color c"
  by (induction dts arbitrary: c) simp_all

lemma advance_t:
  assumes "0 < car_length c" "0 \<le> car_t c" "0 \<le> car_speed c * dt"
  shows "car_t (advance dt c) = frac (car_t c + car_speed c * dt / car_length c)"
proof -
  have "0 \<le> car_speed c * dt / car_length c"
    using assms(1,3) by simp
  with assms(2) have "0 \<le> car_t c + car_speed c * dt / car_length c"
    by simp
  then show ?thesis
    by (simp add: advance_def js_rem_1_nonneg)
qed

lemma fold_advance_t:
  assumes "0 < car_length c" "0 \<le> car_t c" "\<forall>dt\<in>set dts. 0 \<le> car_speed c * dt"
  shows "car_t (fold advance dts c)
           = (if dts = [] then car_t c
              else frac (car_t c + (\<Sum>dt\<leftarrow>dts. car_speed c * dt) / car_length c))"
  using assms
proof (induction dts arbitrary: c)
  case Nil
  then show ?case by simp
next
  case (Cons dt dts)
  let ?c = "advance dt c"
  have t1: "car_t ?c = frac (car_t c + car_speed c * dt / car_length c)"
    using Cons.prems by (intro advance_t) simp_all
  have "0 \<le> car_t ?c"
    unfolding t1 by simp
  with Cons.prems
  have "car_t (fold advance dts ?c)
          = (if dts = [] then car_t ?c
             else frac (car_t ?c + (\<Sum>dt\<leftarrow>dts. car_speed ?c * dt) / car_length ?c))"
    by (intro Cons.IH) simp_all
  then show ?case
    unfolding t1 by (simp add: add_divide_distrib add.assoc)
qed

text \<open>
  Claim C6. For a car with cycle length \<open>L > 0\<close> and progress \<open>t\<close> in \<open>[0, 1)\<close>, ticks whose
  increments \<open>speed * dt\<close> are positive and add up to exactly \<open>L\<close> bring the progress
  back to \<open>t\<close>, and the progress is in \<open>[0, 1)\<close> after each of the ticks.
\<close>

theorem traffic_wrap_round_trip:
  "0 < car_length c \<Longrightarrow> 0 \<le> car_t c \<Longrightarrow> car_t c < 1 \<Longrightarrow>
   \<forall>dt\<in>set dts. 0 < car_speed c * dt \<Longrightarrow>
   (\<Sum>dt\<leftarrow>dts. car_speed c * dt) = car_length c \<Longrightarrow>
   car_t (fold advance dts c) = car_t c
   \<and> (\<forall>k\<le>length dts. 0 \<le> car_t (fold advance (take k dts) c)
                        \<and> car_t (fold advance (take k dts) c) < 1)"
proof -
  assume L: "0 < car_length c" and t0: "0 \<le> car_t c" and t1: "car_t c < 1"
    and pos: "\<forall>dt\<in>set dts. 0 < car_speed c * dt"
    and total: "(\<Sum>dt\<leftarrow>dts. car_speed c * dt) = car_length c"
  have nonneg: "\<forall>dt\<in>set xs. 0 \<le> car_speed c * dt" if "set xs \<subseteq> set dts" for xs
    using pos that by (auto intro: less_imp_le)
  have ne: "dts \<noteq> []"
    using total L by auto
  have "car_t (fold advance dts c) = frac (car_t c + car_length c / car_length c)"
    using fold_advance_t [OF L t0 nonneg [OF subset_refl]] ne total by simp
  also have "\<dots> = frac (car_t c + 1)"
    using L by simp
  also have "\<dots> = car_t c"
    using t0 t1 by (simp add: frac_1_eq frac_eq)
  finally have rt: "car_t (fold advance dts c) = car_t c" .
  have range: "0 \<le> car_t (fold advance (take k dts) c)
      \<and> car_t (fold advance (take k dts) c) < 1" for k
    using fold_advance_t [OF L t0 nonneg [OF set_take_subset], of k] t0 t1
    by (simp add: frac_lt_1)
  from rt range show ?thesis by blast
qed

theorem traffic_wrap_round_trip_witness:
  "0 < car_length car0 \<and> 0 \<le> car_t car0 \<and> car_t car0 < 1
   \<and> 0 < car_speed car0 * (1 / 20)
   \<and> (\<Sum>dt\<leftarrow>replicate 1400 (1 / 20). car_speed car0 * dt) = car_length car0
   \<and> car_t (fold advance (replicate 1400 (1 / 20)) car0) = 1 / 4
   \<and> car_t (fold advance (take 1 (replicate 1400 (1 / 20))) car0) = 1 / 4 + 1 / 1400"
proof -
  have L: "0 < car_length car0" and t0: "0 \<le> car_t car0" and t1: "car_t car0 < 1"
    by (simp_all add: car0_def)
  have pos: "\<forall>dt\<in>set (replicate 1400 (1 / 20)). 0 < car_speed car0 * dt"
    by (simp add: car0_def)
  have total: "(\<Sum>dt\<leftarrow>replicate 1400 (1 / 20). car_speed car0 * dt) = car_length car0"
    by (simp add: car0_def sum_list_replicate)
  have one: "car_t (fold advance (take 1 (replicate 1400 (1 / 20))) car0) = 1 / 4 + 1 / 1400"
  proof -
    have "take 1 (replicate 1400 (1 / 20 :: real)) = [1 / 20]"
      by (simp add: take_Suc_conv_app_nth)
    then show ?thesis
      by (simp add: advance_def js_rem_def car0_def)
  qed
  from traffic_wrap_round_trip [OF L t0 t1 pos total] L t0 t1 total one
  show ?thesis by (simp add: car0_def)
qed

subsection \<open>The lane of a car is a frame\<close>

lemma updateTraffic_Some:
  "updateTraffic dt (Some c) =
     Some (c\<lparr> cars := map (advance dt) (cars c),
              bodyMatrices := map carTransform (map (advance dt) (cars c)),
              roofMatrices := map carTransform (map (advance dt) (cars c)),
              wheelMatrices := concat (map wheelTransforms
                                 (map carTransform (map (advance dt) (cars c)))) \<rparr>)"
  by (simp add: updateTraffic_def Let_def del: map_map)

lemma fold_updateTraffic_None: "fold updateTraffic dts None = None"
  by (induction dts) (simp_all add: updateTraffic_def)

lemma fold_updateTraffic_cars:
  "\<exists>c'. fold updateTraffic dts (Some c) = Some c'
        \<and> cars c' = map (fold advance dts) (cars c)
        \<and> (dts \<noteq> [] \<longrightarrow> bodyMatrices c' = map carTransform (cars c')
                        \<and> roofMatrices c' = bodyMatrices c')"
proof (induction dts arbitrary: c rule: rev_induct)
  case Nil
  then show ?case by simp
next
  case (snoc dt dts)
  obtain c1 where c1: "fold updateTraffic dts (Some c) = Some c1"
    and cs: "cars c1 = map (fold advance dts) (cars c)"
    using snoc.IH by blast
  show ?case
    unfolding fold_append comp_def c1 fold_simps updateTraffic_Some
    by (simp add: cs)
qed

lemma carTransform_lane:
  "position_y (carTransform c) = 0.6
   \<and> (case car_lane c of
      LaneX z d \<Rightarrow> position_z (carTransform c) = z
                   \<and> rotation_y (carTransform c) = (if d > 0 then - pi / 2 else pi / 2)
    | LaneZ x d \<Rightarrow> position_x (carTransform c) = x
                   \<and> rotation_y (carTransform c) = (if d > 0 then 0 else pi))"
  by (simp add: carTransform_def Let_def split: lane.split)

text \<open>
  Claim C7. After any ticks (at least one, so that the matrices have been written),
  whatever their \<open>dt\<close>, every car still has the lane it had, the body matrix of the car
  has the stored coordinate of that lane on the axis across the lane (\<open>lane.z\<close> on a lane
  along X, \<open>lane.x\<close> on a lane along Z) and the height 0.6, and its yaw is the one of
  the four values \<open>-pi/2\<close>, \<open>pi/2\<close>, \<open>0\<close>, \<open>pi\<close> that the axis and the direction of the lane
  select.
\<close>

theorem lane_confinement:
  "fold updateTraffic dts (Some c) = Some c' \<Longrightarrow> dts \<noteq> [] \<Longrightarrow>
   length (cars c') = length (cars c) \<and> length (bodyMatrices c') = length (cars c)
   \<and> (\<forall>i<length (cars c).
         car_lane (cars c' ! i) = car_lane (cars c ! i)
         \<and> position_y (bodyMatrices c' ! i) = 0.6
         \<and> (case car_lane (cars c ! i) of
               LaneX z d \<Rightarrow>
                 position_z (bodyMatrices c' ! i) = z
                 \<and> rotation_y (bodyMatrices c' ! i) = (if d > 0 then - pi / 2 else pi / 2)
             | LaneZ x d \<Rightarrow>
                 position_x (bodyMatrices c' ! i) = x
                 \<and> rotation_y (bodyMatrices c' ! i) = (if d > 0 then 0 else pi))
         \<and> rotation_y (bodyMatrices c' ! i) \<in> {- pi / 2, pi / 2, 0, pi})"
proof -
  assume run: "fold updateTraffic dts (Some c) = Some c'" and ne: "dts \<noteq> []"
  from fold_updateTraffic_cars [of dts c] run ne
  have cs: "cars c' = map (fold advance dts) (cars c)"
    and ms: "bodyMatrices c' = map carTransform (cars c')"
    by auto
  have len: "length (cars c') = length (cars c)" "length (bodyMatrices c') = length (cars c)"
    unfolding ms cs by simp_all
  have each: "car_lane (cars c' ! i) = car_lane (cars c ! i)
         \<and> position_y (bodyMatrices c' ! i) = 0.6
         \<and> (case car_lane (cars c ! i) of
               LaneX z d \<Rightarrow>
                 position_z (bodyMatrices c' ! i) = z
                 \<and> rotation_y (bodyMatrices c' ! i) = (if d > 0 then - pi / 2 else pi / 2)
             | LaneZ x d \<Rightarrow>
                 position_x (bodyMatrices c' ! i) = x
                 \<and> rotation_y (bodyMatrices c' ! i) = (if d > 0 then 0 else pi))
         \<and> rotation_y (bodyMatrices c' ! i) \<in> {- pi / 2, pi / 2, 0, pi}"
    if i: "i < length (cars c)" for i
  proof -
    have l: "car_lane (cars c' ! i) = car_lane (cars c ! i)"
      unfolding cs using i by simp
    have m: "bodyMatrices c' ! i = carTransform (cars c' ! i)"
      unfolding ms using i len(1) by simp
    show ?thesis
      using carTransform_lane [of "cars c' ! i"] unfolding m l
      by (auto split: lane.splits)
  qed
  from len each show ?thesis by blast
qed

lemma carLoop_length:
  "carLoop cfg lns n s acc = Inr (cs, s') \<Longrightarrow> length cs = length acc + n"
proof (induction n arbitrary: s acc)
  case 0
  then show ?case by simp
next
  case (Suc n)
  then show ?case
    by (auto simp add: case_prod_beta Let_def split: if_splits)
qed

lemma createCity_cars: "createCity sd d e = Inr c \<Longrightarrow> length (cars c) = 144"
  unfolding createCity_unfold Let_def
  by (auto split: if_splits sum.splits dest!: carLoop_length)

theorem lane_confinement_witness:
  "\<exists>c c'. createCity 6 1 env0 = Inr c
     \<and> fold updateTraffic [1 / 20, 1 / 60] (Some c) = Some c'
     \<and> [1 / 20, 1 / 60 :: real] \<noteq> []
     \<and> 0 < length (cars c)
     \<and> car_lane (cars c' ! 0) = car_lane (cars c ! 0)
     \<and> rotation_y (bodyMatrices c' ! 0) \<in> {- pi / 2, pi / 2, 0, pi}"
proof -
  obtain c where c: "createCity 6 1 env0 = Inr c"
    using city_6_exists by blast
  obtain c' where run: "fold updateTraffic [1 / 20, 1 / 60] (Some c) = Some c'"
    using fold_updateTraffic_cars [of "[1 / 20, 1 / 60]" c] by blast
  have ne: "[1 / 20, 1 / 60 :: real] \<noteq> []"
    by simp
  have n: "0 < length (cars c)"
    using createCity_cars [OF c] by simp
  from lane_confinement [OF run ne] n
  have "car_lane (cars c' ! 0) = car_lane (cars c ! 0)
     \<and> rotation_y (bodyMatrices c' ! 0) \<in> {- pi / 2, pi / 2, 0, pi}"
    by blast
  with c run ne n show ?thesis by blast
qed

section \<open>Determinism of the generation\<close>

text \<open>
  Claim C1. Two runs of \<open>createCity\<close> with the same seed and the same density end the same
  way, and when they return a city they return the same roads, parks, building matrices
  and count, trees, lanes and cars, whatever \<open>Math.random()\<close> returns during the runs
  and whether it is night: each run seeds its own generator from \<open>seed\<close> and draws from
  it in the same order, and nothing else enters these results.
\<close>

theorem generation_determinism:
  "map_sum id generated (createCity sd d e1) = map_sum id generated (createCity sd d e2)"
  unfolding createCity_unfold Let_def
  by (simp add: generated_def split: sum.split)

text \<open>The textures and the emissive intensity are outside this: they follow the environment.\<close>

lemma createCity_environment:
  "createCity sd d e = Inr c \<Longrightarrow> emissiveIntensity c = (if isNight e then 0.7 else 0.12)"
  unfolding createCity_unfold Let_def
  by (auto split: if_splits sum.splits)

theorem generation_determinism_witness:
  "\<exists>c1 c2. createCity 6 1 env0 = Inr c1 \<and> createCity 6 1 env1 = Inr c2
     \<and> generated c1 = generated c2
     \<and> emissiveIntensity c1 = 0.12 \<and> emissiveIntensity c2 = 0.7
     \<and> building_6 \<in> set (buildings c1) \<and> building_6 \<in> set (buildings c2)"
proof -
  obtain c1 where c1: "createCity 6 1 env0 = Inr c1"
    using city_6_exists by blast
  obtain c2 where c2: "createCity 6 1 env1 = Inr c2"
    using city_6_exists by blast
  have "generated c1 = generated c2"
    using generation_determinism [of 6 1 env0 env1] unfolding c1 c2 by simp
  moreover have "emissiveIntensity c1 = 0.12" "emissiveIntensity c2 = 0.7"
    using createCity_environment [OF c1] createCity_environment [OF c2]
    by (simp_all add: env0_def env1_def)
  moreover have "building_6 \<in> set (buildings c1)" "building_6 \<in> set (buildings c2)"
    using building_6_in_city [OF c1] building_6_in_city [OF c2] by simp_all
  ultimately show ?thesis
    using c1 c2 by blast
qed

section \<open>Disposing a city\<close>

lemma traverseDispose_no_texture: "Texture tx \<notin> set (traverseDispose ms)"
  by (auto simp add: traverseDispose_def)

lemma traverseDispose_mesh:
  "m \<in> set ms \<Longrightarrow> Geometry (mesh_geometry m) \<in> set (traverseDispose ms)
                  \<and> Material (mesh_material m) \<in> set (traverseDispose ms)"
  by (auto simp add: traverseDispose_def)

lemma materialsDispose_city:
  "materialsDispose [BuildingMat, RoadMat, SidewalkMat, BodyMat, GlassMat, WheelMat]
     = [Texture FacadeTex, Texture FacadeTex, Texture RoadTex]"
  by (simp add: materialsDispose_def material_map_def material_emissiveMap_def)

lemma disposeCity_Some:
  "disposeCity (Some c) st =
     st\<lparr> scene := remove1 (group c) (scene st),
         dispose_calls := dispose_calls st @ traverseDispose (group c)
                            @ materialsDispose (materials c) \<rparr>"
  by (simp add: disposeCity_def)

lemma count_facade:
  assumes "createCity sd d e = Inr c"
  shows "count_list (dispose_calls (disposeCity (Some c) st)) (Texture FacadeTex)
           = count_list (dispose_calls st) (Texture FacadeTex) + 2"
proof -
  have "count_list (traverseDispose (group c)) (Texture FacadeTex) = 0"
    using traverseDispose_no_texture [of FacadeTex "group c"]
    by (simp add: count_list_0_iff)
  then show ?thesis
    unfolding disposeCity_Some createCity_Inr(10) [OF assms] materialsDispose_city
    by simp
qed

lemma count_traverse_material:
  "count_list (traverseDispose ms) (Material m) = length (filter (\<lambda>x. mesh_material x = m) ms)"
  by (induction ms) (simp_all add: traverseDispose_def)

lemma filter_concat_replicate:
  "filter P (concat (replicate n xs)) = concat (replicate n (filter P xs))"
  by (induction n) simp_all

lemma count_road_material:
  assumes "createCity sd d e = Inr c"
  shows "count_list (dispose_calls (disposeCity (Some c) st)) (Material RoadMat)
           = count_list (dispose_calls st) (Material RoadMat) + 26"
proof -
  have g: "group c = groupMeshes (makeConfig d) (length (parks c)) (length (trees c))"
    using assms unfolding createCity_unfold Let_def
    by (auto split: if_splits sum.splits)
  have "length (filter (\<lambda>x. mesh_material x = RoadMat) (group c)) = 26"
    unfolding g groupMeshes_def
    by (simp add: filter_concat_replicate filter_empty_conv)
  moreover have "count_list (materialsDispose (materials c)) (Material RoadMat) = 0"
    unfolding createCity_Inr(10) [OF assms] materialsDispose_city by simp
  ultimately show ?thesis
    by (simp add: disposeCity_Some count_traverse_material)
qed

text \<open>
  Claim C9 as stated fails in its last part. Disposing the city of seed 6 and density 1
  once calls \<open>dispose()\<close> on the facade texture twice: the texture is both the \<open>map\<close> and
  the \<open>emissiveMap\<close> of the building material (lines 290-291), and lines 424-425 dispose
  both.
\<close>

theorem dispose_exactly_once_counterexample:
  "\<not> isl (createCity 6 1 env0)
   \<and> count_list
        (dispose_calls (disposeCity (Some (projr (createCity 6 1 env0)))
                          (stageOf (projr (createCity 6 1 env0)))))
        (Texture FacadeTex) = 2"
proof -
  obtain c where c: "createCity 6 1 env0 = Inr c"
    using city_6_exists by blast
  show ?thesis
    unfolding c using count_facade [OF c, of "stageOf c"]
    by (simp add: stageOf_def)
qed

text \<open>
  Claim C9, as the code has it. Disposing no city changes nothing. Disposing a city
  returns normally, also a second time: it removes the group from the scene and calls
  \<open>dispose()\<close> on the geometry and the material of every mesh of the group and on the
  textures of the materials table, so each of them is released at least once (the
  facade texture twice and the road material, shared by the 26 road meshes, 26 times in
  every call); a second call on the same city repeats the calls and releases nothing
  that was not released before.
\<close>

theorem dispose_idempotent:
  "createCity sd d e = Inr c \<Longrightarrow>
   disposeCity None st = st
   \<and> group c \<notin> set (scene (disposeCity (Some c) (stageOf c)))
   \<and> (\<forall>m\<in>set (group c).
         Geometry (mesh_geometry m) \<in> set (dispose_calls (disposeCity (Some c) st))
         \<and> Material (mesh_material m) \<in> set (dispose_calls (disposeCity (Some c) st)))
   \<and> Texture FacadeTex \<in> set (dispose_calls (disposeCity (Some c) st))
   \<and> Texture RoadTex \<in> set (dispose_calls (disposeCity (Some c) st))
   \<and> count_list (dispose_calls (disposeCity (Some c) st)) (Texture FacadeTex)
       = count_list (dispose_calls st) (Texture FacadeTex) + 2
   \<and> count_list (dispose_calls (disposeCity (Some c) st)) (Material RoadMat)
       = count_list (dispose_calls st) (Material RoadMat) + 26
   \<and> set (dispose_calls (disposeCity (Some c) (disposeCity (Some c) st)))
       = set (dispose_calls (disposeCity (Some c) st))
   \<and> scene (disposeCity (Some c) (disposeCity (Some c) (stageOf c)))
       = scene (disposeCity (Some c) (stageOf c))"
proof -
  assume c: "createCity sd d e = Inr c"
  note mats = createCity_Inr(10) [OF c]
  have none: "disposeCity None st = st"
    by (simp add: disposeCity_def)
  have gone: "group c \<notin> set (scene (disposeCity (Some c) (stageOf c)))"
    by (simp add: disposeCity_Some stageOf_def)
  have meshes: "\<forall>m\<in>set (group c).
         Geometry (mesh_geometry m) \<in> set (dispose_calls (disposeCity (Some c) st))
         \<and> Material (mesh_material m) \<in> set (dispose_calls (disposeCity (Some c) st))"
    using traverseDispose_mesh [of _ "group c"] by (simp add: disposeCity_Some)
  have tex: "Texture FacadeTex \<in> set (dispose_calls (disposeCity (Some c) st))"
    "Texture RoadTex \<in> set (dispose_calls (disposeCity (Some c) st))"
    by (simp_all add: disposeCity_Some mats materialsDispose_city)
  have again: "set (dispose_calls (disposeCity (Some c) (disposeCity (Some c) st)))
       = set (dispose_calls (disposeCity (Some c) st))"
    by (auto simp add: disposeCity_Some)
  have scene2: "scene (disposeCity (Some c) (disposeCity (Some c) (stageOf c)))
       = scene (disposeCity (Some c) (stageOf c))"
    by (simp add: disposeCity_Some stageOf_def)
  from none gone meshes tex count_facade [OF c, of st] count_road_material [OF c, of st]
    again scene2
  show ?thesis by blast
qed

lemma buildingMesh_in_group:
  "createCity sd d e = Inr c \<Longrightarrow>
   \<lparr> mesh_geometry = BuildingGeo, mesh_material = BuildingMat \<rparr> \<in> set (group c)"
  unfolding createCity_unfold Let_def
  by (auto simp add: groupMeshes_def split: if_splits sum.splits)

theorem dispose_idempotent_witness:
  "\<exists>c. createCity 6 1 env0 = Inr c
     \<and> disposeCity None (stageOf c) = stageOf c
     \<and> \<lparr> mesh_geometry = BuildingGeo, mesh_material = BuildingMat \<rparr> \<in> set (group c)
     \<and> Geometry BuildingGeo \<in> set (dispose_calls (disposeCity (Some c) (stageOf c)))
     \<and> Material BuildingMat \<in> set (dispose_calls (disposeCity (Some c) (stageOf c)))
     \<and> scene (disposeCity (Some c) (stageOf c)) = []
     \<and> set (dispose_calls (disposeCity (Some c) (disposeCity (Some c) (stageOf c))))
         = set (dispose_calls (disposeCity (Some c) (stageOf c)))"
proof -
  obtain c where c: "createCity 6 1 env0 = Inr c"
    using city_6_exists by blast
  have m: "\<lparr> mesh_geometry = BuildingGeo, mesh_material = BuildingMat \<rparr> \<in> set (group c)"
    by (rule buildingMesh_in_group [OF c])
  have s: "scene (disposeCity (Some c) (stageOf c)) = []"
    by (simp add: disposeCity_Some stageOf_def)
  from dispose_idempotent [OF c, of "stageOf c"] m
  have "disposeCity None (stageOf c) = stageOf c
     \<and> Geometry BuildingGeo \<in> set (dispose_calls (disposeCity (Some c) (stageOf c)))
     \<and> Material BuildingMat \<in> set (dispose_calls (disposeCity (Some c) (stageOf c)))
     \<and> set (dispose_calls (disposeCity (Some c) (disposeCity (Some c) (stageOf c))))
         = set (dispose_calls (disposeCity (Some c) (stageOf c)))"
    by fastforce
  with c m s show ?thesis by blast
qed

end
